theory Spec2Isabelle
  imports Complex_Main
begin

section \<open>Record batches\<close>

text \<open>
  The engine works on pandas DataFrames. A cell is missing (\<open>NaN\<close>, also Python's
  \<open>None\<close>; \<open>NaT\<close> for a missing date), a number, a string, or a parsed date
  (year, month, day). Numbers are rationals: Python integers embed exactly, and the
  quotients the code forms (averages, velocities, interpolated percentiles) stay exact.
  Rounding of binary floating point is not part of the model.
\<close>

datatype cell = NaN | NaT | Num rat | Str string | Timestamp int nat nat

datatype error = KeyError string | IndexError | AttributeError | TypeError | ValueError

text \<open>
  A frame is column-major, as pandas stores it: the row labels and the columns in their
  order, each a name with one cell per row.
\<close>

record dataframe =
  index :: "nat list"
  columns :: "(string \<times> cell list) list"

definition empty_frame :: dataframe where
  "empty_frame = \<lparr>index = [], columns = []\<rparr>"

definition len :: "dataframe \<Rightarrow> nat" where
  "len df = length (index df)"

text \<open>\<open>df.empty\<close>: an axis of length 0.\<close>

definition df_empty :: "dataframe \<Rightarrow> bool" where
  "df_empty df = (index df = [] \<or> columns df = [])"

definition has_column :: "string \<Rightarrow> dataframe \<Rightarrow> bool" where
  "has_column c df = (map_of (columns df) c \<noteq> None)"

text \<open>\<open>df[c]\<close> raises KeyError for a column the frame does not have.\<close>

definition get_column :: "dataframe \<Rightarrow> string \<Rightarrow> error + cell list" where
  "get_column df c = (case map_of (columns df) c of None \<Rightarrow> Inl (KeyError c) | Some col \<Rightarrow> Inr col)"

text \<open>
  \<open>df[c] = values\<close> mutates the frame: an existing column is overwritten in place, a
  new one is appended.
\<close>

fun assign :: "(string \<times> cell list) list \<Rightarrow> string \<Rightarrow> cell list \<Rightarrow> (string \<times> cell list) list" where
  "assign [] c values = [(c, values)]"
| "assign ((k, col) # rest) c values =
     (if k = c then (k, values) # rest else (k, col) # assign rest c values)"

definition set_column :: "dataframe \<Rightarrow> string \<Rightarrow> cell list \<Rightarrow> dataframe" where
  "set_column df c values = df\<lparr>columns := assign (columns df) c values\<rparr>"

definition isna :: "cell \<Rightarrow> bool" where
  "isna c = (c = NaN \<or> c = NaT)"

text \<open>Every column holds one cell per row label.\<close>

definition well_formed :: "dataframe \<Rightarrow> bool" where
  "well_formed df = list_all (\<lambda>(c, col). length col = length (index df)) (columns df)"

text \<open>
  What the engine takes from pandas, scikit-learn and the clock, as parameters:
  how \<open>pd.to_numeric\<close> and \<open>pd.to_datetime\<close> read a cell that is neither missing nor
  already of the target type (\<open>None\<close> when \<open>errors='coerce'\<close> gives up), how \<open>str\<close>
  prints a cell that is not a string, \<open>datetime.now().year\<close>,
  \<open>cosine_similarity(CountVectorizer(stop_words='english').fit_transform(documents))\<close>,
  which raises ValueError on an empty vocabulary, and the terms with their total counts
  that \<open>CountVectorizer(stop_words='english', min_df=3, ngram_range=(1, 2))\<close> finds in
  a list of titles, which raises ValueError when no term is left.
\<close>

record library =
  numeric_of :: "cell \<Rightarrow> rat option"
  datetime_of :: "cell \<Rightarrow> (int \<times> nat \<times> nat) option"
  str_of :: "cell \<Rightarrow> string"
  current_year :: int
  cosine_similarity :: "string list \<Rightarrow> error + rat list list"
  title_terms :: "string list \<Rightarrow> error + (string \<times> nat) list"

text \<open>\<open>pd.to_numeric(column, errors='coerce')\<close>, cell by cell; \<open>None\<close> is NaN.\<close>

definition to_numeric :: "library \<Rightarrow> cell \<Rightarrow> rat option" where
  "to_numeric lib c =
     (case c of Num r \<Rightarrow> Some r | NaN \<Rightarrow> None | NaT \<Rightarrow> None | _ \<Rightarrow> numeric_of lib c)"

text \<open>\<open>pd.to_datetime(column, errors='coerce')\<close>, cell by cell.\<close>

definition to_datetime :: "library \<Rightarrow> cell \<Rightarrow> cell" where
  "to_datetime lib c =
     (case c of
        Timestamp y m d \<Rightarrow> Timestamp y m d
      | NaN \<Rightarrow> NaT
      | NaT \<Rightarrow> NaT
      | _ \<Rightarrow> (case datetime_of lib c of Some (y, m, d) \<Rightarrow> Timestamp y m d | None \<Rightarrow> NaT))"

text \<open>\<open>.dt.year\<close> on a datetime column.\<close>

definition dt_year :: "cell \<Rightarrow> cell" where
  "dt_year c = (case c of Timestamp y m d \<Rightarrow> Num (of_int y) | _ \<Rightarrow> NaN)"

text \<open>
  Reading a column as numbers without coercion (\<open>sum\<close>, \<open>mean\<close>, comparisons):
  missing cells stay missing, a string or a date raises TypeError.
\<close>

fun numeric_cells :: "cell list \<Rightarrow> error + rat option list" where
  "numeric_cells [] = Inr []"
| "numeric_cells (c # cs) =
     (case c of
        Num r \<Rightarrow> (case numeric_cells cs of Inl e \<Rightarrow> Inl e | Inr rs \<Rightarrow> Inr (Some r # rs))
      | NaN \<Rightarrow> (case numeric_cells cs of Inl e \<Rightarrow> Inl e | Inr rs \<Rightarrow> Inr (None # rs))
      | NaT \<Rightarrow> (case numeric_cells cs of Inl e \<Rightarrow> Inl e | Inr rs \<Rightarrow> Inr (None # rs))
      | _ \<Rightarrow> Inl TypeError)"

text \<open>\<open>sum\<close>, \<open>mean\<close> and \<open>median\<close> of a numeric column skip missing values.\<close>

definition present :: "rat option list \<Rightarrow> rat list" where
  "present col = List.map_filter id col"

definition mean :: "rat list \<Rightarrow> rat option" where
  "mean xs = (if xs = [] then None else Some (sum_list xs / of_nat (length xs)))"

definition median :: "rat list \<Rightarrow> rat option" where
  "median xs =
     (let s = sort xs; n = length s
      in if n = 0 then None
         else if odd n then Some (s ! (n div 2))
         else Some ((s ! (n div 2 - 1) + s ! (n div 2)) / 2))"

section \<open>Citation statistics (calculate\_impact\_metrics, calculate\_metrics)\<close>

text \<open>
  A citation vector is the column \<open>df['citations']\<close> after numeric coercion. The source
  computes every index on \<open>df['citations'].sort_values(ascending=False)\<close>.
\<close>

definition sort_desc :: "rat list \<Rightarrow> rat list" where
  "sort_desc xs = rev (sort xs)"

text \<open>
  app\_functions.py, lines 44-45:
  \<^verbatim>\<open>h_index = sum(citation_counts >= np.arange(1, len(citation_counts) + 1))\<close>
  The comparison is elementwise between the sorted counts and the ranks 1..n; \<open>sum\<close>
  counts the ranks where it holds.
\<close>

definition h_index_of :: "rat list \<Rightarrow> nat" where
  "h_index_of citations =
     (let citation_counts = sort_desc citations
      in length (filter (\<lambda>(c, i). of_nat i \<le> c)
                   (zip citation_counts [1..<length citation_counts + 1])))"

text \<open>app\_functions.py, line 48: \<^verbatim>\<open>i10_index = sum(citation_counts >= 10)\<close>\<close>

definition i10_index_of :: "rat list \<Rightarrow> nat" where
  "i10_index_of citations = length (filter (\<lambda>c. 10 \<le> c) (sort_desc citations))"

text \<open>
  app\_functions.py, lines 50-58: the g-index loop. \<open>i\<close> is the rank of the head of the
  remaining counts (\<open>enumerate(citation_counts, 1)\<close>), \<open>cumulative\<close> the running sum and
  \<open>g\<close> the last rank that passed; the \<open>else: break\<close> branch returns \<open>g\<close>.
\<close>

fun g_index_loop :: "rat list \<Rightarrow> nat \<Rightarrow> rat \<Rightarrow> nat \<Rightarrow> nat" where
  "g_index_loop [] i cumulative g = g"
| "g_index_loop (count # rest) i cumulative g =
     (let cumulative_citations = cumulative + count
      in if of_nat (i * i) \<le> cumulative_citations
         then g_index_loop rest (i + 1) cumulative_citations i
         else g)"

definition g_index_of :: "rat list \<Rightarrow> nat" where
  "g_index_of citations = g_index_loop (sort_desc citations) 1 0 0"

text \<open>
  data\_processing.py, lines 107-114: the h-index loop of \<open>calculate_metrics\<close>. That
  function does not coerce the column, so a count may be missing (\<open>None\<close> stands for
  NaN); a comparison with NaN is false and takes the \<open>break\<close> branch. \<open>i\<close> is the
  0-based position of \<open>enumerate\<close>.
\<close>

fun h_index_loop :: "rat option list \<Rightarrow> nat \<Rightarrow> nat \<Rightarrow> nat" where
  "h_index_loop [] i h = h"
| "h_index_loop (cite # rest) i h =
     (case cite of
        Some c \<Rightarrow> if of_nat (i + 1) \<le> c then h_index_loop rest (i + 1) (i + 1) else h
      | None \<Rightarrow> h)"

text \<open>
  \<open>sort_values(ascending=False)\<close> on a column with missing values: numbers in
  descending order, the missing values last.
\<close>

definition sort_values_desc :: "rat option list \<Rightarrow> rat option list" where
  "sort_values_desc col =
     map Some (sort_desc (present col)) @ filter (\<lambda>c. c = None) col"

definition dp_h_index_of :: "rat option list \<Rightarrow> nat" where
  "dp_h_index_of col = h_index_loop (sort_values_desc col) 0 0"

text \<open>
  Modelled from the spec: \<open>np.percentile\<close> is numpy's, not this repository's. The spec
  calls it the standard linear-interpolation percentile of the citation distribution:
  on the ascending sort of \<open>n\<close> values, the value at the virtual position
  \<open>(n - 1) * p / 100\<close>, interpolated linearly between the two neighbouring ranks.
\<close>

definition percentile :: "rat list \<Rightarrow> rat \<Rightarrow> rat" where
  "percentile xs p =
     (let s = sort xs;
          n = length s;
          position = of_nat (n - 1) * p / 100;
          lower = nat \<lfloor>position\<rfloor>;
          upper = min (lower + 1) (n - 1);
          fraction = position - of_int \<lfloor>position\<rfloor>
      in s ! lower + (s ! upper - s ! lower) * fraction)"

definition percentiles :: "nat list" where
  "percentiles = [10, 25, 50, 75, 90, 95, 99]"

text \<open>Lines 60-69: one entry per percentile of the fixed list, in its order.\<close>

definition citation_percentiles_of :: "rat list \<Rightarrow> (nat \<times> rat) list" where
  "citation_percentiles_of citations = map (\<lambda>p. (p, percentile citations (of_nat p))) percentiles"

record impact_metrics =
  total_publications :: nat
  total_citations :: rat
  avg_citations :: rat
  h_index :: nat
  i10_index :: nat
  g_index :: nat
  citation_percentiles :: "(nat \<times> rat) list"

text \<open>
  app\_functions.py, lines 33-36: the citation column after
  \<^verbatim>\<open>df['citations'] = 0\<close> or
  \<^verbatim>\<open>df['citations'] = pd.to_numeric(df['citations'], errors='coerce').fillna(0)\<close>.
\<close>

definition coerced_citations :: "library \<Rightarrow> dataframe \<Rightarrow> rat list" where
  "coerced_citations lib df =
     (case map_of (columns df) ''citations'' of
        None \<Rightarrow> replicate (len df) 0
      | Some col \<Rightarrow> map (\<lambda>c. case to_numeric lib c of Some r \<Rightarrow> r | None \<Rightarrow> 0) col)"

text \<open>
  app\_functions.py, lines 11-79. The function assigns to \<open>df['citations']\<close>, so the
  model returns the caller's frame as the call leaves it beside the metrics.
\<close>

definition calculate_impact_metrics :: "library \<Rightarrow> dataframe \<Rightarrow> impact_metrics \<times> dataframe" where
  "calculate_impact_metrics lib df =
     (if df_empty df then
        (\<lparr>total_publications = 0, total_citations = 0, avg_citations = 0, h_index = 0,
          i10_index = 0, g_index = 0, citation_percentiles = []\<rparr>, df)
      else
        let citations = coerced_citations lib df;
            df' = set_column df ''citations'' (map Num citations);
            total = len df';
            total_cites = sum_list citations
        in (\<lparr>total_publications = total,
             total_citations = total_cites,
             avg_citations = (if total > 0 then total_cites / of_nat total else 0),
             h_index = h_index_of citations,
             i10_index = i10_index_of citations,
             g_index = g_index_of citations,
             citation_percentiles = citation_percentiles_of citations\<rparr>,
            df'))"

record basic_metrics =
  dp_total_publications :: nat
  dp_total_citations :: rat
  dp_avg_citations :: rat
  dp_h_index :: nat

text \<open>
  data\_processing.py, lines 85-121. The column is read as it is: a missing column raises
  KeyError, a non-numeric cell TypeError. The frame is not assigned to.
\<close>

definition calculate_metrics :: "dataframe \<Rightarrow> error + basic_metrics" where
  "calculate_metrics df =
     (if df_empty df then
        Inr \<lparr>dp_total_publications = 0, dp_total_citations = 0, dp_avg_citations = 0,
             dp_h_index = 0\<rparr>
      else
        case get_column df ''citations'' of
          Inl e \<Rightarrow> Inl e
        | Inr col \<Rightarrow>
            (case numeric_cells col of
               Inl e \<Rightarrow> Inl e
             | Inr cites \<Rightarrow>
                 let total_pubs = len df;
                     total_cites = sum_list (present cites)
                 in Inr \<lparr>dp_total_publications = total_pubs,
                         dp_total_citations = total_cites,
                         dp_avg_citations =
                           (if total_pubs > 0 then total_cites / of_nat total_pubs else 0),
                         dp_h_index = dp_h_index_of cites\<rparr>))"

section \<open>Temporal aggregation (analyze\_publications\_by\_time)\<close>

text \<open>
  \<open>df.groupby('year')\<close>: the groups are the distinct values of the key column in
  ascending order; rows whose key is missing belong to no group (pandas' default
  \<open>dropna=True\<close>).
\<close>

definition group_keys :: "cell list \<Rightarrow> rat list" where
  "group_keys keys = sort (remdups (List.map_filter (\<lambda>c. case c of Num r \<Rightarrow> Some r | _ \<Rightarrow> None) keys))"

text \<open>The cells of a column in the rows of one group.\<close>

definition group_cells :: "cell list \<Rightarrow> rat \<Rightarrow> 'a list \<Rightarrow> 'a list" where
  "group_cells keys k col = map snd (filter (\<lambda>(key, v). key = Num k) (zip keys col))"

text \<open>\<open>.size()\<close>: the number of rows of each group.\<close>

definition groupby_size :: "cell list \<Rightarrow> (rat \<times> nat) list" where
  "groupby_size keys = map (\<lambda>k. (k, length (filter (\<lambda>key. key = Num k) keys))) (group_keys keys)"

record time_analysis =
  publications_by_year :: "(rat \<times> nat) list"
  citations_by_year :: "(rat \<times> rat \<times> rat option \<times> rat option) list"
  citation_velocity :: "(rat \<times> rat option) list"

text \<open>
  Line 115: \<^verbatim>\<open>df['citations'] / df['years_since_publication'].clip(lower=1)\<close>, row by
  row; a missing operand gives a missing quotient.
\<close>

definition velocity :: "rat option \<Rightarrow> cell \<Rightarrow> rat option" where
  "velocity cite years_since =
     (case (cite, years_since) of
        (Some c, Num a) \<Rightarrow> Some (c / max 1 a)
      | _ \<Rightarrow> None)"

definition cell_of :: "rat option \<Rightarrow> cell" where
  "cell_of v = (case v of Some r \<Rightarrow> Num r | None \<Rightarrow> NaN)"

text \<open>
  app\_functions.py, lines 81-123. The function assigns four columns to its argument;
  the model returns the caller's frame as the call leaves it, also when
  \<open>df.groupby('year')['citations']\<close> raises (line 108) after the first two assignments.
\<close>

definition analyze_publications_by_time ::
  "library \<Rightarrow> dataframe \<Rightarrow> (error + time_analysis) \<times> dataframe" where
  "analyze_publications_by_time lib df =
     (if df_empty df \<or> \<not> has_column ''publication_date'' df then
        (Inr \<lparr>publications_by_year = [], citations_by_year = [], citation_velocity = []\<rparr>, df)
      else
        case get_column df ''publication_date'' of
          Inl e \<Rightarrow> (Inl e, df)
        | Inr dates \<Rightarrow>
            let publication_date = map (to_datetime lib) dates;
                df1 = set_column df ''publication_date'' publication_date;
                year = map dt_year publication_date;
                df2 = set_column df1 ''year'' year;
                by_year = groupby_size year
            in (case get_column df2 ''citations'' of
                 Inl e \<Rightarrow> (Inl e, df2)
               | Inr col \<Rightarrow>
                   (case numeric_cells col of
                      Inl e \<Rightarrow> (Inl e, df2)
                    | Inr cites \<Rightarrow>
                        let cite_stats =
                              map (\<lambda>k. let g = present (group_cells year k cites)
                                       in (k, sum_list g, mean g, median g))
                                (group_keys year);
                            years_since =
                              map (\<lambda>y. case y of Num r \<Rightarrow> Num (of_int (current_year lib) - r) | _ \<Rightarrow> NaN)
                                year;
                            df3 = set_column df2 ''years_since_publication'' years_since;
                            velocities = map (\<lambda>(c, a). velocity c a) (zip cites years_since);
                            df4 = set_column df3 ''citation_velocity'' (map cell_of velocities);
                            by_velocity =
                              map (\<lambda>k. (k, mean (present (group_cells year k velocities))))
                                (group_keys year)
                        in (Inr \<lparr>publications_by_year = by_year,
                                 citations_by_year = cite_stats,
                                 citation_velocity = by_velocity\<rparr>, df4))))"

text \<open>
  The year a raw \<open>publication_date\<close> cell resolves to, \<open>None\<close> when the date does not
  parse: the record then has no year.
\<close>

definition year_of :: "library \<Rightarrow> cell \<Rightarrow> rat option" where
  "year_of lib c = (case dt_year (to_datetime lib c) of Num r \<Rightarrow> Some r | _ \<Rightarrow> None)"

text \<open>
  The \<open>publication_date\<close> of each record as the batch holds it; a batch without the
  column gives no record a date.
\<close>

definition publication_dates :: "dataframe \<Rightarrow> cell list" where
  "publication_dates df =
     (case map_of (columns df) ''publication_date'' of
        None \<Rightarrow> replicate (len df) NaN
      | Some col \<Rightarrow> col)"

text \<open>The \<open>year\<close> column that lines 99 and 102 compute from the raw dates.\<close>

definition years :: "library \<Rightarrow> cell list \<Rightarrow> cell list" where
  "years lib dates = map dt_year (map (to_datetime lib) dates)"

text \<open>
  The columns that lines 114 and 115 compute from the \<open>year\<close> column and the citation
  counts.
\<close>

definition years_since :: "library \<Rightarrow> cell list \<Rightarrow> cell list" where
  "years_since lib year =
     map (\<lambda>y. case y of Num r \<Rightarrow> Num (of_int (current_year lib) - r) | _ \<Rightarrow> NaN) year"

definition velocities :: "rat option list \<Rightarrow> cell list \<Rightarrow> cell list" where
  "velocities cites since = map cell_of (map (\<lambda>(c, a). velocity c a) (zip cites since))"

section \<open>Author analysis (analyze\_authors)\<close>

text \<open>
  A \<open>char\<close> stands for a code point below 256; text with other code points is outside
  the model. \<open>str.split(',')\<close> cuts at every comma and keeps empty pieces;
  \<open>str.strip()\<close> drops leading and trailing whitespace, the code points for which
  \<open>str.isspace\<close> holds: below 256 these are U+0009 to U+000D, U+001C to U+0020,
  U+0085 (next line) and U+00A0 (no-break space).
\<close>

fun split_on :: "char \<Rightarrow> string \<Rightarrow> string list" where
  "split_on sep [] = [[]]"
| "split_on sep (x # xs) =
     (if x = sep then [] # split_on sep xs
      else (case split_on sep xs of
              [] \<Rightarrow> [[x]]
            | piece # pieces \<Rightarrow> (x # piece) # pieces))"

definition is_space :: "char \<Rightarrow> bool" where
  "is_space ch = (ch \<in> set [CHR '' '', CHR 0x09, CHR 0x0A, CHR 0x0B, CHR 0x0C, CHR 0x0D,
                              CHR 0x1C, CHR 0x1D, CHR 0x1E, CHR 0x1F, CHR 0x85, CHR 0xA0])"

definition strip :: "string \<Rightarrow> string" where
  "strip s = rev (dropWhile is_space (rev (dropWhile is_space s)))"

text \<open>
  Lines 153-156: \<open>author_papers\<close> is a dict from an author to the list of their rows, in
  insertion order. A row is kept by its position in the frame.
\<close>

fun append_paper :: "(string \<times> nat list) list \<Rightarrow> string \<Rightarrow> nat \<Rightarrow> (string \<times> nat list) list" where
  "append_paper [] author row = [(author, [row])]"
| "append_paper ((k, papers) # rest) author row =
     (if k = author then (k, papers @ [row]) # rest
      else (k, papers) # append_paper rest author row)"

text \<open>
  Lines 149-156, the loop over one record's authors. (\<open>all_authors\<close> is appended to
  there and never read again; it is left out.)
\<close>

fun add_paper_authors :: "string list \<Rightarrow> nat \<Rightarrow> (string \<times> nat list) list \<Rightarrow> (string \<times> nat list) list" where
  "add_paper_authors [] row author_papers = author_papers"
| "add_paper_authors (author # rest) row author_papers =
     (if author \<noteq> [] then add_paper_authors rest row (append_paper author_papers author row)
      else add_paper_authors rest row author_papers)"

text \<open>
  Lines 145-156, the loop over the rows. A cell that is neither missing nor a string has
  no \<open>split\<close>: AttributeError.
\<close>

fun collect_authors :: "(nat \<times> cell) list \<Rightarrow> (string \<times> nat list) list \<Rightarrow> error + (string \<times> nat list) list" where
  "collect_authors [] author_papers = Inr author_papers"
| "collect_authors ((row, c) # rest) author_papers =
     (case c of
        NaN \<Rightarrow> collect_authors rest author_papers
      | NaT \<Rightarrow> collect_authors rest author_papers
      | Str s \<Rightarrow>
          if s \<noteq> [] then
            collect_authors rest
              (add_paper_authors (map strip (split_on CHR '','' s)) row author_papers)
          else collect_authors rest author_papers
      | _ \<Rightarrow> Inl AttributeError)"

record author_metrics =
  author :: string
  paper_count :: nat
  citations :: rat
  author_avg_citations :: "rat option"
  author_h_index :: nat

text \<open>
  Line 172, the h-index of one author's papers. The column is not coerced here, so a
  count may be missing; a comparison with NaN is false.
\<close>

definition h_index_na :: "rat option list \<Rightarrow> nat" where
  "h_index_na col =
     (let citation_counts = sort_values_desc col
      in length (filter (\<lambda>(c, i). case c of Some r \<Rightarrow> of_nat i \<le> r | None \<Rightarrow> False)
                   (zip citation_counts [1..<length citation_counts + 1])))"

text \<open>
  Lines 161-180. \<open>paper_df['citations']\<close> raises KeyError when the batch has no such
  column, and the sums raise TypeError on a non-numeric cell.
\<close>

fun author_metrics_loop :: "dataframe \<Rightarrow> (string \<times> nat list) list \<Rightarrow> error + author_metrics list" where
  "author_metrics_loop df [] = Inr []"
| "author_metrics_loop df ((name, papers) # rest) =
     (if length papers < 2 then author_metrics_loop df rest
      else
        case get_column df ''citations'' of
          Inl e \<Rightarrow> Inl e
        | Inr col \<Rightarrow>
            (case numeric_cells (map (\<lambda>row. col ! row) papers) of
               Inl e \<Rightarrow> Inl e
             | Inr cites \<Rightarrow>
                 (case author_metrics_loop df rest of
                    Inl e \<Rightarrow> Inl e
                  | Inr others \<Rightarrow>
                      Inr (\<lparr>author = name,
                            paper_count = length papers,
                            citations = sum_list (present cites),
                            author_avg_citations = mean (present cites),
                            author_h_index = h_index_na cites\<rparr> # others))))"

text \<open>
  Line 190: \<open>{author: i for i, author in enumerate(significant_authors)}\<close>; a later
  entry of a dict comprehension overwrites an earlier one with the same key.
\<close>

definition author_indices :: "string list \<Rightarrow> string \<Rightarrow> nat option" where
  "author_indices significant_authors =
     map_of (rev (zip significant_authors [0..<length significant_authors]))"

text \<open>\<open>collaborations[i, j] += 1\<close> on the matrix, a list of rows.\<close>

definition increment :: "nat list list \<Rightarrow> nat \<Rightarrow> nat \<Rightarrow> nat list list" where
  "increment m i j = m[i := (m ! i)[j := m ! i ! j + 1]]"

text \<open>Lines 203-207: the loop over \<open>paper_authors[i+1:]\<close> for one \<open>author1\<close>.\<close>

fun pair_with :: "(string \<Rightarrow> nat option) \<Rightarrow> nat \<Rightarrow> string list \<Rightarrow> nat list list \<Rightarrow> nat list list" where
  "pair_with indices idx1 [] m = m"
| "pair_with indices idx1 (author2 # rest) m =
     (case indices author2 of
        Some idx2 \<Rightarrow> pair_with indices idx1 rest (increment (increment m idx1 idx2) idx2 idx1)
      | None \<Rightarrow> pair_with indices idx1 rest m)"

text \<open>Lines 200-207: the loop over \<open>enumerate(paper_authors)\<close>.\<close>

fun pair_authors :: "(string \<Rightarrow> nat option) \<Rightarrow> string list \<Rightarrow> nat list list \<Rightarrow> nat list list" where
  "pair_authors indices [] m = m"
| "pair_authors indices (author1 # rest) m =
     (case indices author1 of
        Some idx1 \<Rightarrow> pair_authors indices rest (pair_with indices idx1 rest m)
      | None \<Rightarrow> pair_authors indices rest m)"

text \<open>Lines 194-198: the significant authors of one record, in the order listed.\<close>

definition paper_authors :: "string list \<Rightarrow> string \<Rightarrow> string list" where
  "paper_authors significant_authors s =
     filter (\<lambda>a. a \<in> set significant_authors) (map strip (split_on CHR '','' s))"

text \<open>Lines 192-207: the loop over the rows.\<close>

fun collaborate :: "string list \<Rightarrow> cell list \<Rightarrow> nat list list \<Rightarrow> error + nat list list" where
  "collaborate significant_authors [] m = Inr m"
| "collaborate significant_authors (c # rest) m =
     (case c of
        NaN \<Rightarrow> collaborate significant_authors rest m
      | NaT \<Rightarrow> collaborate significant_authors rest m
      | Str s \<Rightarrow>
          if s \<noteq> [] then
            collaborate significant_authors rest
              (pair_authors (author_indices significant_authors)
                 (paper_authors significant_authors s) m)
          else collaborate significant_authors rest m
      | _ \<Rightarrow> Inl AttributeError)"

text \<open>
  The result: the author impact table and the collaboration matrix with its labels
  (\<open>significant_authors\<close> is both its index and its columns).
\<close>

record author_analysis =
  author_impact :: "author_metrics list"
  author_collaborations :: "string list \<times> nat list list"

text \<open>
  app\_functions.py, lines 125-218. Line 186 reads \<open>author_impact['paper_count']\<close>; the
  frame built from an empty list of metrics has no columns, so that raises KeyError.
\<close>

definition analyze_authors :: "dataframe \<Rightarrow> error + author_analysis" where
  "analyze_authors df =
     (if df_empty df \<or> \<not> has_column ''authors'' df then
        Inr \<lparr>author_impact = [], author_collaborations = ([], [])\<rparr>
      else
        case get_column df ''authors'' of
          Inl e \<Rightarrow> Inl e
        | Inr authors \<Rightarrow>
            (case collect_authors (zip [0..<length authors] authors) [] of
               Inl e \<Rightarrow> Inl e
             | Inr author_papers \<Rightarrow>
                 (case author_metrics_loop df author_papers of
                    Inl e \<Rightarrow> Inl e
                  | Inr metrics \<Rightarrow>
                      if metrics = [] then Inl (KeyError ''paper_count'')
                      else
                        let significant_authors =
                              map author (filter (\<lambda>m. 2 \<le> paper_count m) metrics);
                            n = length significant_authors
                        in (case collaborate significant_authors authors
                                   (replicate n (replicate n 0)) of
                              Inl e \<Rightarrow> Inl e
                            | Inr collaborations \<Rightarrow>
                                Inr \<lparr>author_impact = metrics,
                                     author_collaborations =
                                       (significant_authors, collaborations)\<rparr>))))"

text \<open>
  The \<open>authors\<close> cells of the batch, and the shape the collaboration matrix is meant to
  have: one row and one column per significant author, equal entries across the
  diagonal, zeros on it.
\<close>

definition authors_column :: "dataframe \<Rightarrow> cell list" where
  "authors_column df = (case map_of (columns df) ''authors'' of None \<Rightarrow> [] | Some col \<Rightarrow> col)"

definition square :: "nat \<Rightarrow> nat list list \<Rightarrow> bool" where
  "square n m = (length m = n \<and> list_all (\<lambda>row. length row = n) m)"

definition symmetric :: "nat \<Rightarrow> nat list list \<Rightarrow> bool" where
  "symmetric n m = (\<forall>a < n. \<forall>b < n. m ! a ! b = m ! b ! a)"

definition zero_diagonal :: "nat \<Rightarrow> nat list list \<Rightarrow> bool" where
  "zero_diagonal n m = (\<forall>a < n. m ! a ! a = 0)"

section \<open>Keyword analysis (analyze\_keywords)\<close>

text \<open>A text column is used when it exists and is not all missing (lines 238, 311 and 359-366).\<close>

definition usable :: "dataframe \<Rightarrow> string \<Rightarrow> bool" where
  "usable df feature =
     (case map_of (columns df) feature of None \<Rightarrow> False | Some col \<Rightarrow> \<not> list_all isna col)"

text \<open>
  Lines 245-256 build \<open>keyword_papers\<close> from the \<open>keywords\<close> column by the same loop
  as lines 145-156 build \<open>author_papers\<close>; \<open>collect_authors\<close> models both. Here
  \<open>all_keywords\<close> is read again (line 259): every non-empty trimmed keyword of every
  record, in order.
\<close>

fun all_keywords :: "cell list \<Rightarrow> string list" where
  "all_keywords [] = []"
| "all_keywords (c # rest) =
     (case c of
        Str s \<Rightarrow> filter (\<lambda>k. k \<noteq> []) (map strip (split_on CHR '','' s)) @ all_keywords rest
      | _ \<Rightarrow> all_keywords rest)"

text \<open>
  \<open>pd.Series(xs).value_counts()\<close>: each distinct value with its number of occurrences,
  most frequent first; values of equal count are taken in order of first occurrence.
\<close>

definition value_counts :: "string list \<Rightarrow> (string \<times> nat) list" where
  "value_counts xs =
     sort_key (\<lambda>(k, n). - int n) (map (\<lambda>k. (k, count_list xs k)) (rev (remdups (rev xs))))"

record keyword_metrics =
  keyword :: string
  keyword_paper_count :: nat
  keyword_total_citations :: rat
  keyword_avg_citations :: "rat option"

text \<open>Lines 265-279: the impact of each keyword with at least 3 papers.\<close>

fun keyword_metrics_loop :: "dataframe \<Rightarrow> (string \<times> nat list) list \<Rightarrow> error + keyword_metrics list" where
  "keyword_metrics_loop df [] = Inr []"
| "keyword_metrics_loop df ((name, papers) # rest) =
     (if length papers < 3 then keyword_metrics_loop df rest
      else
        case get_column df ''citations'' of
          Inl e \<Rightarrow> Inl e
        | Inr col \<Rightarrow>
            (case numeric_cells (map (\<lambda>row. col ! row) papers) of
               Inl e \<Rightarrow> Inl e
             | Inr cites \<Rightarrow>
                 (case keyword_metrics_loop df rest of
                    Inl e \<Rightarrow> Inl e
                  | Inr others \<Rightarrow>
                      Inr (\<lparr>keyword = name,
                            keyword_paper_count = length papers,
                            keyword_total_citations = sum_list (present cites),
                            keyword_avg_citations = mean (present cites)\<rparr> # others))))"

text \<open>
  Line 295: \<open>pd.to_datetime\<close> without \<open>errors='coerce'\<close> raises on a cell it cannot
  parse.
\<close>

fun to_datetime_strict :: "library \<Rightarrow> cell list \<Rightarrow> error + cell list" where
  "to_datetime_strict lib [] = Inr []"
| "to_datetime_strict lib (c # rest) =
     (if to_datetime lib c = NaT \<and> \<not> isna c then Inl ValueError
      else case to_datetime_strict lib rest of
             Inl e \<Rightarrow> Inl e
           | Inr dates \<Rightarrow> Inr (to_datetime lib c # dates))"

text \<open>Lines 289-303: the papers per year of each of the top keywords.\<close>

fun keyword_trends_loop ::
  "library \<Rightarrow> dataframe \<Rightarrow> (string \<times> nat list) list \<Rightarrow> string list \<Rightarrow> error + (string \<times> rat \<times> nat) list" where
  "keyword_trends_loop lib df keyword_papers [] = Inr []"
| "keyword_trends_loop lib df keyword_papers (name # rest) =
     (case map_of keyword_papers name of
        None \<Rightarrow> keyword_trends_loop lib df keyword_papers rest
      | Some papers \<Rightarrow>
          (case map_of (columns df) ''publication_date'' of
             None \<Rightarrow> keyword_trends_loop lib df keyword_papers rest
           | Some col \<Rightarrow>
               (case to_datetime_strict lib (map (\<lambda>row. col ! row) papers) of
                  Inl e \<Rightarrow> Inl e
                | Inr dates \<Rightarrow>
                    (case keyword_trends_loop lib df keyword_papers rest of
                       Inl e \<Rightarrow> Inl e
                     | Inr others \<Rightarrow>
                         Inr (map (\<lambda>(year, count). (name, year, count))
                                (groupby_size (map dt_year dates)) @ others)))))"

text \<open>
  Line 312: the titles handed to the vectorizer, \<open>df['title'].fillna('')\<close>. A cell that
  is neither missing nor a string has no \<open>lower\<close>: AttributeError.
\<close>

fun title_documents :: "cell list \<Rightarrow> error + string list" where
  "title_documents [] = Inr []"
| "title_documents (c # rest) =
     (case c of
        Str s \<Rightarrow> (case title_documents rest of Inl e \<Rightarrow> Inl e | Inr docs \<Rightarrow> Inr (s # docs))
      | NaN \<Rightarrow> (case title_documents rest of Inl e \<Rightarrow> Inl e | Inr docs \<Rightarrow> Inr ([] # docs))
      | NaT \<Rightarrow> (case title_documents rest of Inl e \<Rightarrow> Inl e | Inr docs \<Rightarrow> Inr ([] # docs))
      | _ \<Rightarrow> Inl AttributeError)"

record keyword_analysis =
  keyword_frequency :: "(string \<times> nat) list"
  keyword_impact :: "keyword_metrics list"
  keyword_trends :: "(string \<times> rat \<times> nat) list"

text \<open>app\_functions.py, lines 220-337.\<close>

definition analyze_keywords :: "library \<Rightarrow> dataframe \<Rightarrow> error + keyword_analysis" where
  "analyze_keywords lib df =
     (if df_empty df then
        Inr \<lparr>keyword_frequency = [], keyword_impact = [], keyword_trends = []\<rparr>
      else if usable df ''keywords'' then
        case get_column df ''keywords'' of
          Inl e \<Rightarrow> Inl e
        | Inr keywords \<Rightarrow>
            (case collect_authors (zip [0..<length keywords] keywords) [] of
               Inl e \<Rightarrow> Inl e
             | Inr keyword_papers \<Rightarrow>
                 let frequency = value_counts (all_keywords keywords)
                 in (case keyword_metrics_loop df keyword_papers of
                       Inl e \<Rightarrow> Inl e
                     | Inr impact \<Rightarrow>
                         (case keyword_trends_loop lib df keyword_papers
                                 (map fst (take 20 frequency)) of
                            Inl e \<Rightarrow> Inl e
                          | Inr trends \<Rightarrow>
                              Inr \<lparr>keyword_frequency = frequency,
                                   keyword_impact = impact,
                                   keyword_trends = trends\<rparr>)))
      else if usable df ''title'' then
        case get_column df ''title'' of
          Inl e \<Rightarrow> Inl e
        | Inr titles \<Rightarrow>
            (case title_documents titles of
               Inl e \<Rightarrow> Inl e
             | Inr documents \<Rightarrow>
                 (case title_terms lib documents of
                    Inl e \<Rightarrow> Inl e
                  | Inr terms \<Rightarrow>
                      Inr \<lparr>keyword_frequency = sort_key (\<lambda>(k, n). - int n) terms,
                           keyword_impact = [],
                           keyword_trends = []\<rparr>))
      else Inr \<lparr>keyword_frequency = [], keyword_impact = [], keyword_trends = []\<rparr>)"

section \<open>Similarity ranking (find\_similar\_papers)\<close>

text \<open>
  A Python position: a negative one counts from the end, one outside \<open>-n..n-1\<close> raises
  IndexError (\<open>None\<close> here).
\<close>

definition py_index :: "nat \<Rightarrow> int \<Rightarrow> nat option" where
  "py_index n i =
     (if 0 \<le> i \<and> i < int n then Some (nat i)
      else if - int n \<le> i \<and> i < 0 then Some (nat (int n + i))
      else None)"

text \<open>A Python slice \<open>xs[start:stop]\<close>: negative bounds count from the end, both are clamped.\<close>

definition py_bound :: "nat \<Rightarrow> int \<Rightarrow> nat" where
  "py_bound n k = (if k < 0 then nat (max 0 (int n + k)) else min (nat k) n)"

definition py_slice :: "'a list \<Rightarrow> int \<Rightarrow> int \<Rightarrow> 'a list" where
  "py_slice xs start stop =
     (let lo = py_bound (length xs) start; hi = py_bound (length xs) stop
      in take (hi - lo) (drop lo xs))"

text \<open>
  \<open>np.argsort\<close>: the positions in ascending order of their values. Equal values keep
  their order of position, as numpy's sort does on the short arrays it sorts by
  insertion.
\<close>

definition argsort :: "rat list \<Rightarrow> nat list" where
  "argsort row = map snd (sort_key fst (zip row [0..<length row]))"

text \<open>\<open>df.iloc[positions]\<close>: the rows at the positions, with their labels and cells.\<close>

definition iloc :: "dataframe \<Rightarrow> nat list \<Rightarrow> error + dataframe" where
  "iloc df positions =
     (if list_all (\<lambda>i. i < len df) positions then
        Inr \<lparr>index = map (\<lambda>i. index df ! i) positions,
             columns = map (\<lambda>(c, col). (c, map (\<lambda>i. col ! i) positions)) (columns df)\<rparr>
      else Inl IndexError)"

fun join_spaces :: "string list \<Rightarrow> string" where
  "join_spaces [] = []"
| "join_spaces [x] = x"
| "join_spaces (x # y # rest) = x @ '' '' @ join_spaces (y # rest)"

definition to_str :: "library \<Rightarrow> cell \<Rightarrow> string" where
  "to_str lib c = (case c of Str s \<Rightarrow> s | _ \<Rightarrow> str_of lib c)"

text \<open>Lines 374-381: the document of the row at a position.\<close>

definition document :: "library \<Rightarrow> dataframe \<Rightarrow> string list \<Rightarrow> nat \<Rightarrow> string" where
  "document lib df features row =
     join_spaces
       (map (to_str lib)
          (filter (\<lambda>c. \<not> isna c)
             (map (\<lambda>feature. case map_of (columns df) feature of
                                Some col \<Rightarrow> col ! row
                              | None \<Rightarrow> NaN)
                features)))"

text \<open>
  Line 391: \<^verbatim>\<open>np.argsort(similarities[target_paper_index])[::-1][1:n+1]\<close>, the
  positions by descending similarity with the first one dropped.
\<close>

definition similar_indices :: "rat list \<Rightarrow> int \<Rightarrow> nat list" where
  "similar_indices row n = py_slice (rev (argsort row)) 1 (n + 1)"

text \<open>app\_functions.py, lines 339-393.\<close>

definition find_similar_papers :: "library \<Rightarrow> dataframe \<Rightarrow> int \<Rightarrow> int \<Rightarrow> error + dataframe" where
  "find_similar_papers lib df target_paper_index n =
     (if df_empty df \<or> len df \<le> 1 then Inr empty_frame
      else
        case py_index (len df) target_paper_index of
          None \<Rightarrow> Inl IndexError
        | Some target \<Rightarrow>
            let features = filter (usable df) [''abstract'', ''title'', ''keywords'']
            in if features = [] then Inr empty_frame
               else
                 let documents = map (document lib df features) [0..<len df]
                 in (case cosine_similarity lib documents of
                       Inl e \<Rightarrow> Inl e
                     | Inr similarities \<Rightarrow>
                         (case py_index (length similarities) target_paper_index of
                            None \<Rightarrow> Inl IndexError
                          | Some t \<Rightarrow> iloc df (similar_indices (similarities ! t) n))))"

section \<open>A sample batch\<close>

text \<open>
  Concrete data to run the functions on: three records, one with a missing citation
  count and one with a date that does not parse, and a library that parses the two
  ISO dates below. For the documents \<open>the\<close> and \<open>quantum computing\<close> the vectorizer
  drops the stop word, so the first document has no term: its similarity to every
  document, itself included, is 0, and the second document's similarity to itself is 1.
\<close>

definition sample_library :: library where
  "sample_library =
     \<lparr>numeric_of = (\<lambda>c. None),
      datetime_of = (\<lambda>c. if c = Str ''2020-03-01'' then Some (2020, 3, 1)
                          else if c = Str ''2021-07-15'' then Some (2021, 7, 15)
                          else None),
      str_of = (\<lambda>c. ''nan''),
      current_year = 2026,
      cosine_similarity = (\<lambda>documents.
         if documents = [''the'', ''quantum computing''] then Inr [[0, 0], [0, 1]]
         else Inl ValueError),
      title_terms = (\<lambda>titles. Inl ValueError)\<rparr>"

definition sample_batch :: dataframe where
  "sample_batch =
     \<lparr>index = [0, 1, 2],
      columns = [(''title'', [Str ''Graphs'', Str ''Trees'', Str ''Heaps'']),
                 (''authors'', [Str ''A. Lee, B. Roy'', Str ''A. Lee'', Str ''B. Roy, A. Lee'']),
                 (''citations'', [Num 12, Num 3, NaN]),
                 (''publication_date'', [Str ''2020-03-01'', Str ''unknown'', Str ''2020-03-01''])]\<rparr>"

section \<open>Properties of the citation statistics\<close>

lemma sort_desc_length: "length (sort_desc xs) = length xs"
  by (simp add: sort_desc_def)

lemma sort_desc_set: "set (sort_desc xs) = set xs"
  by (simp add: sort_desc_def)

lemma sort_desc_sorted: "sorted_wrt (\<lambda>a b. b \<le> a) (sort_desc xs)"
  by (simp add: sort_desc_def sorted_wrt_rev)

text \<open>
  On a batch that is not empty, the indices \<open>calculate_impact_metrics\<close> reports are
  those of the coerced citation vector.
\<close>

lemma calculate_impact_metrics_indices:
  assumes "\<not> df_empty df"
  shows "h_index (fst (calculate_impact_metrics lib df)) = h_index_of (coerced_citations lib df)"
    and "g_index (fst (calculate_impact_metrics lib df)) = g_index_of (coerced_citations lib df)"
    and "i10_index (fst (calculate_impact_metrics lib df)) = i10_index_of (coerced_citations lib df)"
    and "citation_percentiles (fst (calculate_impact_metrics lib df)) =
           citation_percentiles_of (coerced_citations lib df)"
  using assms by (simp_all add: calculate_impact_metrics_def Let_def)

subsection \<open>The g-index example\<close>

text \<open>
  C1, as the spec states it: for the citation vector [25, 8, 5, 3, 3] the g-index is 2.
  The loop gives another value: the running sums 25, 33, 38, 41, 44 meet the squares
  1, 4, 9, 16, 25 at every rank, so the loop never breaks.
\<close>

theorem g_index_example_is_not_2: "g_index_of [25, 8, 5, 3, 3] \<noteq> 2"
  by (simp add: g_index_of_def sort_desc_def)

text \<open>
  C1, amended: for the citation vector [25, 8, 5, 3, 3], the g-index computed under the
  early-exit policy is 5.
\<close>

theorem g_index_example: "g_index_of [25, 8, 5, 3, 3] = 5"
  by (simp add: g_index_of_def sort_desc_def)

subsection \<open>Bounds on the h-index\<close>

lemma h_index_le_length: "h_index_of cs \<le> length cs"
proof -
  have "h_index_of cs \<le> length (zip (sort_desc cs) [1..<length (sort_desc cs) + 1])"
    unfolding h_index_of_def Let_def by (rule length_filter_le)
  then show ?thesis by (simp add: sort_desc_length)
qed

text \<open>A list of \<open>k\<close> distinct positive ranks holds a rank of at least \<open>k\<close>.\<close>

lemma distinct_ranks_max:
  fixes js :: "nat list"
  assumes "distinct js" and "js \<noteq> []" and "\<forall>j \<in> set js. 1 \<le> j"
  shows "length js \<le> Max (set js)"
proof -
  have "set js \<subseteq> {1..Max (set js)}" using assms(3) by auto
  then have "card (set js) \<le> card {1..Max (set js)}" by (intro card_mono) auto
  moreover have "card (set js) = length js" using assms(1) by (rule distinct_card)
  ultimately show ?thesis by simp
qed

lemma count_ranks_witness:
  fixes ns :: "nat list"
  assumes d: "distinct ns" and pos: "\<forall>n \<in> set ns. 1 \<le> n" and ne: "filter P (zip ys ns) \<noteq> []"
  shows "\<exists>c i. (c, i) \<in> set (filter P (zip ys ns)) \<and> length (filter P (zip ys ns)) \<le> i"
proof -
  let ?hits = "filter P (zip ys ns)"
  let ?js = "map snd ?hits"
  have "distinct (map snd (zip ys ns))" using d by (simp add: map_snd_zip_take)
  then have dj: "distinct ?js" by (rule distinct_map_filter)
  have pj: "\<forall>j \<in> set ?js. 1 \<le> j" using pos by (auto dest: set_zip_rightD)
  have nj: "?js \<noteq> []" using ne unfolding map_is_Nil_conv .
  have le: "length ?hits \<le> Max (set ?js)" using distinct_ranks_max[OF dj nj pj] by simp
  have "set ?js \<noteq> {}" using nj unfolding set_empty .
  then have "Max (set ?js) \<in> set ?js" by (intro Max_in finite_set)
  then obtain c where "(c, Max (set ?js)) \<in> set ?hits" by auto
  with le show ?thesis by blast
qed

lemma h_index_le_max:
  assumes "cs \<noteq> []" and "\<forall>c \<in> set cs. 0 \<le> c"
  shows "of_nat (h_index_of cs) \<le> Max (set cs)"
proof (cases "h_index_of cs = 0")
  case True
  from assms obtain c where "c \<in> set cs" "0 \<le> c" by (cases cs) auto
  then have "0 \<le> Max (set cs)" by (meson List.finite_set Max_ge order_trans)
  with True show ?thesis by simp
next
  case False
  let ?ys = "sort_desc cs"
  let ?P = "\<lambda>(c::rat, i::nat). of_nat i \<le> c"
  let ?hits = "filter ?P (zip ?ys [1..<length ?ys + 1])"
  have h: "h_index_of cs = length ?hits"
    by (simp only: h_index_of_def Let_def)
  with False have ne: "?hits \<noteq> []" by (simp del: upt_Suc)
  have d: "distinct [1..<length ?ys + 1]" by (rule distinct_upt)
  have pos: "\<forall>n \<in> set [1..<length ?ys + 1]. 1 \<le> n" by (simp del: upt_Suc)
  from count_ranks_witness[OF d pos ne] obtain c i
    where m: "(c, i) \<in> set ?hits" and le: "length ?hits \<le> i" by blast
  from m have "of_nat i \<le> c" and "c \<in> set ?ys" by (auto dest: set_zip_leftD simp del: upt_Suc)
  moreover have "(of_nat (length ?hits) :: rat) \<le> of_nat i" using le by simp
  moreover have "c \<le> Max (set cs)" using \<open>c \<in> set ?ys\<close> by (simp add: sort_desc_set)
  ultimately show ?thesis unfolding h by linarith
qed

text \<open>
  C7: for every citation vector the h-index is at most the number of publications, and
  for every non-empty vector of non-negative counts (the spec's citation counts are
  non-negative) it is at most the largest count.
\<close>

theorem h_index_bounds:
  "h_index_of cs \<le> length cs \<and>
   (cs \<noteq> [] \<and> (\<forall>c \<in> set cs. 0 \<le> c) \<longrightarrow> of_nat (h_index_of cs) \<le> Max (set cs))"
  using h_index_le_length h_index_le_max by blast

theorem h_index_bounds_witness:
  "[10, 8, 5, 4, 3, 1] \<noteq> ([] :: rat list) \<and>
   h_index_of [10, 8, 5, 4, 3, 1] \<le> length [10, 8, 5, 4, 3, 1 :: rat] \<and>
   of_nat (h_index_of [10, 8, 5, 4, 3, 1]) \<le> Max (set [10, 8, 5, 4, 3, 1 :: rat])"
  using h_index_bounds [of "[10, 8, 5, 4, 3, 1]"] by simp

text \<open>
  The bound by the largest count needs counts that are not negative: the single count
  -5 has h-index 0.
\<close>

lemma h_index_negative_count: "h_index_of [- 5] = 0 \<and> Max (set [- 5 :: rat]) = - 5"
  by (simp add: h_index_of_def sort_desc_def)

subsection \<open>Percentiles grow with the percentage\<close>

text \<open>
  Linear interpolation on an ascending list stays between the two ranks it joins, so a
  later position never gives a smaller value.
\<close>

lemma interpolation_bounds:
  fixes s :: "rat list" and v :: rat
  assumes srt: "sorted s" and v0: "0 \<le> v" and v1: "v \<le> of_nat (length s - 1)" and ne: "s \<noteq> []"
  defines "lower \<equiv> nat \<lfloor>v\<rfloor>"
  defines "upper \<equiv> min (lower + 1) (length s - 1)"
  shows "lower \<le> length s - 1"
    and "s ! lower \<le> s ! upper"
    and "s ! lower \<le> s ! lower + (s ! upper - s ! lower) * (v - of_int \<lfloor>v\<rfloor>)"
    and "s ! lower + (s ! upper - s ! lower) * (v - of_int \<lfloor>v\<rfloor>) \<le> s ! upper"
proof -
  have "\<lfloor>v\<rfloor> \<le> int (length s - 1)" using v1 by (simp add: floor_le_iff)
  then show l: "lower \<le> length s - 1" unfolding lower_def by simp
  have n: "0 < length s" using ne by simp
  have lu: "lower \<le> upper" unfolding upper_def using l by simp
  have ub: "upper < length s" unfolding upper_def using n by arith
  show d: "s ! lower \<le> s ! upper" using srt lu ub by (rule sorted_nth_mono)
  have f0: "0 \<le> v - of_int \<lfloor>v\<rfloor>" by simp
  have f1: "v - of_int \<lfloor>v\<rfloor> \<le> 1" by linarith
  have d0: "0 \<le> s ! upper - s ! lower" using d by simp
  show "s ! lower \<le> s ! lower + (s ! upper - s ! lower) * (v - of_int \<lfloor>v\<rfloor>)"
    using d0 f0 by simp
  have "(s ! upper - s ! lower) * (v - of_int \<lfloor>v\<rfloor>) \<le> (s ! upper - s ! lower) * 1"
    using d0 f1 by (rule mult_left_mono[rotated])
  then show "s ! lower + (s ! upper - s ! lower) * (v - of_int \<lfloor>v\<rfloor>) \<le> s ! upper" by simp
qed

lemma interpolation_mono:
  fixes s :: "rat list" and v w :: rat
  assumes srt: "sorted s" and ne: "s \<noteq> []"
    and v0: "0 \<le> v" and vw: "v \<le> w" and w1: "w \<le> of_nat (length s - 1)"
  shows "s ! nat \<lfloor>v\<rfloor> + (s ! min (nat \<lfloor>v\<rfloor> + 1) (length s - 1) - s ! nat \<lfloor>v\<rfloor>) * (v - of_int \<lfloor>v\<rfloor>)
       \<le> s ! nat \<lfloor>w\<rfloor> + (s ! min (nat \<lfloor>w\<rfloor> + 1) (length s - 1) - s ! nat \<lfloor>w\<rfloor>) * (w - of_int \<lfloor>w\<rfloor>)"
    (is "?f v \<le> ?f w")
proof -
  have w0: "0 \<le> w" using v0 vw by simp
  have v1: "v \<le> of_nat (length s - 1)" using vw w1 by simp
  note bv = interpolation_bounds[OF srt v0 v1 ne]
  note bw = interpolation_bounds[OF srt w0 w1 ne]
  have fl: "\<lfloor>v\<rfloor> \<le> \<lfloor>w\<rfloor>" using vw by (rule floor_mono)
  show ?thesis
  proof (cases "\<lfloor>v\<rfloor> = \<lfloor>w\<rfloor>")
    case True
    have "(s ! min (nat \<lfloor>w\<rfloor> + 1) (length s - 1) - s ! nat \<lfloor>w\<rfloor>) * (v - of_int \<lfloor>w\<rfloor>)
        \<le> (s ! min (nat \<lfloor>w\<rfloor> + 1) (length s - 1) - s ! nat \<lfloor>w\<rfloor>) * (w - of_int \<lfloor>w\<rfloor>)"
      using bw(2) vw by (intro mult_left_mono) simp_all
    then show ?thesis using True by simp
  next
    case False
    with fl have lt: "\<lfloor>v\<rfloor> < \<lfloor>w\<rfloor>" by simp
    have "0 \<le> \<lfloor>v\<rfloor>" using v0 by simp
    with lt have "nat \<lfloor>v\<rfloor> + 1 \<le> nat \<lfloor>w\<rfloor>" by arith
    moreover have "min (nat \<lfloor>v\<rfloor> + 1) (length s - 1) \<le> nat \<lfloor>v\<rfloor> + 1" by simp
    ultimately have "min (nat \<lfloor>v\<rfloor> + 1) (length s - 1) \<le> nat \<lfloor>w\<rfloor>" by simp
    moreover have "nat \<lfloor>w\<rfloor> < length s" using bw(1) ne by (cases s) simp_all
    ultimately have "s ! min (nat \<lfloor>v\<rfloor> + 1) (length s - 1) \<le> s ! nat \<lfloor>w\<rfloor>"
      using srt by (intro sorted_nth_mono)
    with bv(4) bw(3) show ?thesis by linarith
  qed
qed

lemma percentile_mono:
  assumes "xs \<noteq> []" and "0 \<le> p" and "p \<le> q" and "q \<le> 100"
  shows "percentile xs p \<le> percentile xs q"
proof -
  let ?s = "sort xs"
  let ?n = "length ?s"
  have ne: "?s \<noteq> []" using assms(1) by (metis length_sort length_0_conv)
  have a: "0 \<le> (of_nat (?n - 1) :: rat) * p / 100" using assms(2) by simp
  have b: "(of_nat (?n - 1) :: rat) * p / 100 \<le> of_nat (?n - 1) * q / 100"
    using assms(3) by (simp add: mult_left_mono divide_right_mono)
  have "(of_nat (?n - 1) :: rat) * q \<le> of_nat (?n - 1) * 100"
    using assms(4) by (intro mult_left_mono) simp_all
  then have c: "(of_nat (?n - 1) :: rat) * q / 100 \<le> of_nat (?n - 1)" by simp
  show ?thesis
    unfolding percentile_def Let_def
    by (rule interpolation_mono[OF sorted_sort ne a b c])
qed

lemma percentiles_pairwise:
  assumes ne: "cs \<noteq> []" and m1: "(p1, v1) \<in> set (citation_percentiles_of cs)"
    and m2: "(p2, v2) \<in> set (citation_percentiles_of cs)" and lt: "p1 < p2"
  shows "v1 \<le> v2"
proof -
  from m1 have v1: "v1 = percentile cs (of_nat p1)"
    by (auto simp: citation_percentiles_of_def)
  from m2 have v2: "v2 = percentile cs (of_nat p2)" and "p2 \<in> set percentiles"
    by (auto simp: citation_percentiles_of_def)
  then have "p2 \<le> 100" by (auto simp: percentiles_def)
  then have "(of_nat p2 :: rat) \<le> 100" by (metis of_nat_le_iff of_nat_numeral)
  moreover have "(of_nat p1 :: rat) \<le> of_nat p2" using lt by simp
  ultimately show "v1 \<le> v2" unfolding v1 v2 using ne by (intro percentile_mono) simp_all
qed

lemma percentiles_reported:
  "map fst (citation_percentiles_of cs) = [10, 25, 50, 75, 90, 95, 99]"
  by (simp add: citation_percentiles_of_def percentiles_def)

text \<open>
  C9: \<open>calculate_impact_metrics\<close> reports one value for each of the percentiles 10, 25,
  50, 75, 90, 95 and 99, in this order, and for every non-empty citation vector and
  every pair \<open>p1 < p2\<close> of them the value reported for \<open>p1\<close> is at most the value
  reported for \<open>p2\<close>.
\<close>

theorem percentiles_monotone:
  "map fst (citation_percentiles_of cs) = [10, 25, 50, 75, 90, 95, 99] \<and>
   (cs \<noteq> [] \<and> (p1, v1) \<in> set (citation_percentiles_of cs) \<and>
    (p2, v2) \<in> set (citation_percentiles_of cs) \<and> p1 < p2 \<longrightarrow> v1 \<le> v2)"
proof (intro conjI impI)
  show "map fst (citation_percentiles_of cs) = [10, 25, 50, 75, 90, 95, 99]"
    by (rule percentiles_reported)
  show "v1 \<le> v2"
    if "cs \<noteq> [] \<and> (p1, v1) \<in> set (citation_percentiles_of cs) \<and>
        (p2, v2) \<in> set (citation_percentiles_of cs) \<and> p1 < p2"
    using that by (intro percentiles_pairwise[of cs p1 v1 p2 v2]) simp_all
qed

theorem percentiles_monotone_witness:
  "[3, 1, 2] \<noteq> ([] :: rat list) \<and>
   map fst (citation_percentiles_of [3, 1, 2]) = [10, 25, 50, 75, 90, 95, 99] \<and>
   (10, 6 / 5) \<in> set (citation_percentiles_of [3, 1, 2]) \<and>
   (25, 3 / 2) \<in> set (citation_percentiles_of [3, 1, 2]) \<and>
   (10 :: nat) < 25 \<and> (6 / 5 :: rat) \<le> 3 / 2"
proof -
  have m1: "(10, 6 / 5) \<in> set (citation_percentiles_of [3, 1, 2])"
    by (simp add: citation_percentiles_of_def percentiles_def percentile_def Let_def floor_eq_iff)
  have m2: "(25, 3 / 2) \<in> set (citation_percentiles_of [3, 1, 2])"
    by (simp add: citation_percentiles_of_def percentiles_def percentile_def Let_def floor_eq_iff)
  have ne: "[3, 1, 2] \<noteq> ([] :: rat list)" by simp
  have lt: "(10 :: nat) < 25" by simp
  note inst = percentiles_monotone [of "[3, 1, 2]" 10 "6 / 5" 25 "3 / 2"]
  have pre: "[3, 1, 2] \<noteq> ([] :: rat list) \<and> (10, 6 / 5) \<in> set (citation_percentiles_of [3, 1, 2]) \<and>
             (25, 3 / 2) \<in> set (citation_percentiles_of [3, 1, 2]) \<and> (10 :: nat) < 25"
    using ne m1 m2 lt by (intro conjI)
  have le: "(6 / 5 :: rat) \<le> 3 / 2" using inst [THEN conjunct2, THEN mp, OF pre] .
  from ne inst [THEN conjunct1] m1 m2 lt le show ?thesis by (intro conjI)
qed

subsection \<open>The two h-index computations agree\<close>

text \<open>
  On counts in descending order, the loop that breaks at the first failing rank stops
  exactly where the ranks stop passing: past a failing rank the counts only shrink and
  the ranks only grow.
\<close>

lemma h_index_loop_count:
  "sorted_wrt (\<lambda>a b. b \<le> a) ys \<Longrightarrow>
   h_index_loop (map Some ys) i h =
     (let m = length (filter (\<lambda>(c, j). of_nat j \<le> c) (zip ys [i + 1..<i + 1 + length ys]))
      in if m = 0 then h else i + m)"
proof (induction ys arbitrary: i h)
  case Nil
  then show ?case by simp
next
  case (Cons y ys)
  have up: "[i + 1..<i + 1 + length (y # ys)] = (i + 1) # [i + 1 + 1..<i + 1 + 1 + length ys]"
    by (subst upt_conv_Cons) simp_all
  show ?case
  proof (cases "of_nat (i + 1) \<le> y")
    case True
    from Cons.prems have "sorted_wrt (\<lambda>a b. b \<le> a) ys" by simp
    from Cons.IH[OF this, of "i + 1" "i + 1"] True show ?thesis
      unfolding up by (simp add: Let_def)
  next
    case False
    have "filter (\<lambda>(c, j). of_nat j \<le> c) (zip ys [i + 1 + 1..<i + 1 + 1 + length ys]) = []"
    proof -
      have "\<And>c j. (c, j) \<in> set (zip ys [i + 1 + 1..<i + 1 + 1 + length ys]) \<Longrightarrow> \<not> of_nat j \<le> c"
      proof -
        fix c j assume m: "(c, j) \<in> set (zip ys [i + 1 + 1..<i + 1 + 1 + length ys])"
        then have "c \<in> set ys" and "j \<in> set [i + 1 + 1..<i + 1 + 1 + length ys]"
          by (rule set_zip_leftD, rule set_zip_rightD)
        then have "i + 1 < j" by (simp del: upt_Suc)
        note \<open>c \<in> set ys\<close>
        with Cons.prems have "c \<le> y" by auto
        moreover have "y < of_nat (i + 1)" using False by simp
        moreover have "(of_nat (i + 1) :: rat) < of_nat j"
          using \<open>i + 1 < j\<close> by (simp del: of_nat_Suc of_nat_add)
        ultimately show "\<not> of_nat j \<le> c" by simp
      qed
      then show ?thesis by (auto simp: filter_empty_conv)
    qed
    with False show ?thesis unfolding up by (simp add: Let_def)
  qed
qed

lemma sort_values_desc_Some: "sort_values_desc (map Some cs) = map Some (sort_desc cs)"
  by (simp add: sort_values_desc_def present_def List.map_filter_def comp_def filter_map)

text \<open>
  C10: for every citation vector, the h-index of \<open>calculate_metrics\<close> (the loop with
  \<open>break\<close>) equals the h-index of \<open>calculate_impact_metrics\<close> (the count of passing
  ranks).
\<close>

theorem h_index_loop_equals_count: "dp_h_index_of (map Some cs) = h_index_of cs"
proof -
  have "dp_h_index_of (map Some cs) = h_index_loop (map Some (sort_desc cs)) 0 0"
    by (simp add: dp_h_index_of_def sort_values_desc_Some)
  also have "\<dots> = h_index_of cs"
    using h_index_loop_count[OF sort_desc_sorted, of cs 0 0]
    by (simp add: h_index_of_def Let_def)
  finally show ?thesis .
qed

section \<open>Properties of the temporal aggregation\<close>

lemma years_simps:
  "years lib [] = []"
  "years lib (c # cs) = dt_year (to_datetime lib c) # years lib cs"
  by (simp_all add: years_def)

lemma year_cells_count:
  "length (filter (\<lambda>key. key = Num k) (years lib dates)) =
   length (filter (\<lambda>c. year_of lib c = Some k) dates)"
  by (induction dates) (auto simp: years_simps year_of_def split: cell.splits)

lemma year_cells_nums:
  "List.map_filter (\<lambda>c. case c of Num r \<Rightarrow> Some r | _ \<Rightarrow> None) (years lib dates) =
   List.map_filter (year_of lib) dates"
  by (induction dates) (auto simp: years_simps year_of_def split: cell.splits)

lemma map_filter_count:
  "length (filter (\<lambda>c. f c = Some k) xs) = count_list (List.map_filter f xs) k"
  by (induction xs) (auto split: option.splits)

lemma map_filter_length:
  "length (List.map_filter f xs) = length (filter (\<lambda>c. f c \<noteq> None) xs)"
  by (induction xs) (auto split: option.splits)

lemma sum_counts_over_keys:
  fixes ks :: "rat list"
  shows "sum_list (map (count_list ks) (sort (remdups ks))) = length ks"
proof -
  have "sum_list (map (count_list ks) (sort (remdups ks))) = sum (count_list ks) (set (sort (remdups ks)))"
    by (rule sum_list_distinct_conv_sum_set) simp
  also have "\<dots> = sum (count_list ks) (set ks)" by simp
  also have "\<dots> = length ks" by (rule sum_count_set) simp_all
  finally show ?thesis .
qed

lemma groupby_size_years:
  "groupby_size (years lib dates) =
   map (\<lambda>k. (k, count_list (List.map_filter (year_of lib) dates) k))
     (sort (remdups (List.map_filter (year_of lib) dates)))"
  unfolding groupby_size_def group_keys_def year_cells_nums year_cells_count map_filter_count ..

lemma groupby_size_total:
  "sum_list (map snd (groupby_size (years lib dates))) =
   length (filter (\<lambda>c. year_of lib c \<noteq> None) dates)"
proof -
  have "map snd (groupby_size (years lib dates)) =
        map (count_list (List.map_filter (year_of lib) dates))
          (sort (remdups (List.map_filter (year_of lib) dates)))"
    unfolding groupby_size_years by (simp add: comp_def)
  then show ?thesis by (simp only: sum_counts_over_keys map_filter_length)
qed

lemma groupby_size_group:
  assumes "(y, n) \<in> set (groupby_size (years lib dates))"
  shows "n = length (filter (\<lambda>c. year_of lib c = Some y) dates)"
  using assms unfolding groupby_size_years by (auto simp: map_filter_count)

lemma by_year_result:
  assumes "fst (analyze_publications_by_time lib df) = Inr r"
  shows "publications_by_year r =
           (if df_empty df \<or> \<not> has_column ''publication_date'' df then []
            else groupby_size (years lib (publication_dates df)))"
  using assms
  by (auto simp: analyze_publications_by_time_def Let_def get_column_def has_column_def
        publication_dates_def years_def split: if_splits option.splits sum.splits)

lemma empty_has_no_dates:
  assumes "well_formed df" and "df_empty df \<or> \<not> has_column ''publication_date'' df"
  shows "filter (\<lambda>c. year_of lib c \<noteq> None) (publication_dates df) = []"
proof (cases "map_of (columns df) ''publication_date''")
  case None
  then show ?thesis
    by (simp add: publication_dates_def year_of_def to_datetime_def dt_year_def)
next
  case (Some col)
  then have m: "(''publication_date'', col) \<in> set (columns df)" by (rule map_of_SomeD)
  with assms(1) have "length col = length (index df)"
    by (auto simp: well_formed_def list_all_iff)
  moreover from Some assms(2) m have "index df = []"
    by (auto simp: has_column_def df_empty_def)
  ultimately show ?thesis using Some by (simp add: publication_dates_def)
qed

lemma total_publications_len:
  "columns df \<noteq> [] \<Longrightarrow> total_publications (fst (calculate_impact_metrics lib df)) = len df"
  by (auto simp: calculate_impact_metrics_def Let_def df_empty_def len_def set_column_def)

text \<open>
  C6: on a batch whose columns each hold one cell per row, when
  \<open>analyze_publications_by_time\<close> returns, its per-year publication counts sum to the
  number of records whose \<open>publication_date\<close> parses; each year's count is the number
  of records whose date parses to that year, so a record without a parseable date is in
  no group; and \<open>calculate_impact_metrics\<close> counts every record of the batch in
  \<open>total_publications\<close> (a batch with rows has columns).
\<close>

theorem per_year_counts:
  assumes "well_formed df" and "fst (analyze_publications_by_time lib df) = Inr r"
  shows "sum_list (map snd (publications_by_year r)) =
           length (filter (\<lambda>c. year_of lib c \<noteq> None) (publication_dates df)) \<and>
         (\<forall>(y, n) \<in> set (publications_by_year r).
            n = length (filter (\<lambda>c. year_of lib c = Some y) (publication_dates df))) \<and>
         (columns df \<noteq> [] \<longrightarrow> total_publications (fst (calculate_impact_metrics lib df)) = len df)"
proof (cases "df_empty df \<or> \<not> has_column ''publication_date'' df")
  case True
  then have "publications_by_year r = []" using by_year_result[OF assms(2)] by simp
  then show ?thesis
    using empty_has_no_dates[OF assms(1) True, of lib] total_publications_len by simp
next
  case False
  then have "publications_by_year r = groupby_size (years lib (publication_dates df))"
    using by_year_result[OF assms(2)] by simp
  then show ?thesis
    using groupby_size_total groupby_size_group total_publications_len by auto
qed

theorem per_year_counts_witness:
  "well_formed sample_batch \<and>
   fst (analyze_publications_by_time sample_library sample_batch) =
     Inr \<lparr>publications_by_year = [(2020, 2)],
          citations_by_year = [(2020, 12, Some 12, Some 12)],
          citation_velocity = [(2020, Some 2)]\<rparr> \<and>
   sum_list (map snd [(2020 :: rat, 2 :: nat)]) =
     length (filter (\<lambda>c. year_of sample_library c \<noteq> None) (publication_dates sample_batch)) \<and>
   length (filter (\<lambda>c. year_of sample_library c \<noteq> None) (publication_dates sample_batch)) = 2 \<and>
   total_publications (fst (calculate_impact_metrics sample_library sample_batch)) = 3"
proof -
  have wf: "well_formed sample_batch"
    by (simp add: well_formed_def sample_batch_def)
  have run: "fst (analyze_publications_by_time sample_library sample_batch) =
     Inr \<lparr>publications_by_year = [(2020, 2)],
          citations_by_year = [(2020, 12, Some 12, Some 12)],
          citation_velocity = [(2020, Some 2)]\<rparr>"
    by code_simp
  have dated: "length (filter (\<lambda>c. year_of sample_library c \<noteq> None) (publication_dates sample_batch)) = 2"
    by (simp add: year_of_def sample_library_def sample_batch_def publication_dates_def
        to_datetime_def dt_year_def)
  have cols: "columns sample_batch \<noteq> []" by (simp add: sample_batch_def)
  have len: "len sample_batch = 3" by (simp add: len_def sample_batch_def)
  from per_year_counts [OF wf run] cols len dated wf run show ?thesis by simp
qed

section \<open>What the calls leave of their input\<close>

lemma map_of_assign:
  "map_of (assign cols c vs) k = (if k = c then Some vs else map_of cols k)"
  by (induction cols c vs rule: assign.induct) auto

lemma set_column_index: "index (set_column df c vs) = index df"
  by (simp add: set_column_def)

lemma set_column_other:
  "k \<noteq> c \<Longrightarrow> map_of (columns (set_column df c vs)) k = map_of (columns df) k"
  by (simp add: set_column_def map_of_assign)

lemma set_column_written:
  "map_of (columns (set_column df c vs)) c = Some vs"
  by (simp add: set_column_def map_of_assign)

lemma impact_frame_index: "index (snd (calculate_impact_metrics lib df)) = index df"
  by (simp add: calculate_impact_metrics_def Let_def set_column_index)

lemma impact_frame_other:
  "k \<noteq> ''citations'' \<Longrightarrow>
   map_of (columns (snd (calculate_impact_metrics lib df))) k = map_of (columns df) k"
  by (simp add: calculate_impact_metrics_def Let_def set_column_other)

lemma impact_frame_empty: "df_empty df \<Longrightarrow> snd (calculate_impact_metrics lib df) = df"
  by (simp add: calculate_impact_metrics_def)

lemma impact_frame_citations:
  "\<not> df_empty df \<Longrightarrow>
   map_of (columns (snd (calculate_impact_metrics lib df))) ''citations'' =
     Some (map Num (coerced_citations lib df))"
  by (simp add: calculate_impact_metrics_def Let_def set_column_written)

lemma time_frame_index: "index (snd (analyze_publications_by_time lib df)) = index df"
  by (simp add: analyze_publications_by_time_def Let_def set_column_index
      split: sum.splits)

lemma time_frame_other:
  assumes "k \<noteq> ''publication_date''" "k \<noteq> ''year''" "k \<noteq> ''years_since_publication''" "k \<noteq> ''citation_velocity''"
  shows "map_of (columns (snd (analyze_publications_by_time lib df))) k = map_of (columns df) k"
  using assms
  by (simp add: analyze_publications_by_time_def Let_def set_column_other split: sum.splits)

lemma time_frame_guard:
  "df_empty df \<or> \<not> has_column ''publication_date'' df \<Longrightarrow>
   snd (analyze_publications_by_time lib df) = df"
  by (simp add: analyze_publications_by_time_def)

lemma time_frame_dates:
  assumes "\<not> df_empty df" and "map_of (columns df) ''publication_date'' = Some dates"
  shows "map_of (columns (snd (analyze_publications_by_time lib df))) ''publication_date'' =
           Some (map (to_datetime lib) dates)"
    and "map_of (columns (snd (analyze_publications_by_time lib df))) ''year'' =
           Some (years lib dates)"
  using assms
  by (simp_all add: analyze_publications_by_time_def Let_def has_column_def get_column_def
      set_column_def map_of_assign years_def split: sum.splits)

lemma time_frame_velocity:
  assumes "\<not> df_empty df" and "map_of (columns df) ''publication_date'' = Some dates"
    and "map_of (columns df) ''citations'' = Some col" and "numeric_cells col = Inr cites"
  shows "map_of (columns (snd (analyze_publications_by_time lib df))) ''years_since_publication'' =
           Some (years_since lib (years lib dates))"
    and "map_of (columns (snd (analyze_publications_by_time lib df))) ''citation_velocity'' =
           Some (velocities cites (years_since lib (years lib dates)))"
  using assms
  by (simp_all add: analyze_publications_by_time_def Let_def has_column_def get_column_def
      set_column_def map_of_assign years_def years_since_def velocities_def comp_assoc)

lemma time_frame_raised:
  assumes "fst (analyze_publications_by_time lib df) = Inl e"
    and "k \<noteq> ''publication_date''" and "k \<noteq> ''year''"
  shows "map_of (columns (snd (analyze_publications_by_time lib df))) k = map_of (columns df) k"
proof (cases "df_empty df \<or> \<not> has_column ''publication_date'' df")
  case True
  then have "snd (analyze_publications_by_time lib df) = df"
    by (simp add: analyze_publications_by_time_def)
  then show ?thesis by simp
next
  case False
  then obtain dates where d: "get_column df ''publication_date'' = Inr dates"
    by (auto simp: has_column_def get_column_def)
  let ?df2 = "set_column (set_column df ''publication_date'' (map (to_datetime lib) dates))
                ''year'' (map dt_year (map (to_datetime lib) dates))"
  have "snd (analyze_publications_by_time lib df) = ?df2 \<or>
        (\<exists>r. fst (analyze_publications_by_time lib df) = Inr r)"
    using False d
    by (simp add: analyze_publications_by_time_def Let_def split: sum.splits)
  with assms(1) have "snd (analyze_publications_by_time lib df) = ?df2" by auto
  then show ?thesis using assms(2,3) by (simp add: set_column_other)
qed

text \<open>
  C5, as the spec states it: after \<open>calculate_impact_metrics\<close> or
  \<open>analyze_publications_by_time\<close> the input batch holds what it held before. On the
  sample batch neither call does: the first overwrites the missing citation count with
  0, the second replaces the raw dates by parsed ones and adds three columns.
\<close>

theorem input_batch_is_changed:
  "snd (calculate_impact_metrics sample_library sample_batch) \<noteq> sample_batch \<and>
   snd (analyze_publications_by_time sample_library sample_batch) \<noteq> sample_batch"
proof -
  have "snd (calculate_impact_metrics sample_library sample_batch) \<noteq> sample_batch"
    by (simp add: calculate_impact_metrics_def sample_batch_def df_empty_def Let_def
        set_column_def coerced_citations_def to_numeric_def)
  moreover have "snd (analyze_publications_by_time sample_library sample_batch) \<noteq> sample_batch"
    by (simp add: analyze_publications_by_time_def sample_batch_def sample_library_def
        df_empty_def has_column_def get_column_def set_column_def Let_def to_datetime_def
        dt_year_def split: sum.splits)
  ultimately show ?thesis by simp
qed

text \<open>
  C5, amended: both calls keep the rows and every column they do not assign to.
  \<open>calculate_impact_metrics\<close> assigns only to \<open>citations\<close>, which afterwards holds the
  coerced counts, and leaves an empty batch as it is.
  \<open>analyze_publications_by_time\<close> leaves a batch that is empty or has no
  \<open>publication_date\<close> column as it is. Otherwise \<open>publication_date\<close> afterwards holds
  the parsed dates and \<open>year\<close> their years; when the \<open>citations\<close> column is there and
  numeric, \<open>years_since_publication\<close> and \<open>citation_velocity\<close> hold the values of lines
  114 and 115; when the call raises, only \<open>publication_date\<close> and \<open>year\<close> have been
  assigned to.
\<close>

theorem input_batch_frame:
  "index (snd (calculate_impact_metrics lib df)) = index df \<and>
   (k \<noteq> ''citations'' \<longrightarrow>
      map_of (columns (snd (calculate_impact_metrics lib df))) k = map_of (columns df) k) \<and>
   (\<not> df_empty df \<longrightarrow>
      map_of (columns (snd (calculate_impact_metrics lib df))) ''citations'' =
        Some (map Num (coerced_citations lib df))) \<and>
   (df_empty df \<longrightarrow> snd (calculate_impact_metrics lib df) = df) \<and>
   index (snd (analyze_publications_by_time lib df)) = index df \<and>
   (k \<noteq> ''publication_date'' \<and> k \<noteq> ''year'' \<and> k \<noteq> ''years_since_publication'' \<and>
    k \<noteq> ''citation_velocity'' \<longrightarrow>
      map_of (columns (snd (analyze_publications_by_time lib df))) k = map_of (columns df) k) \<and>
   (df_empty df \<or> \<not> has_column ''publication_date'' df \<longrightarrow>
      snd (analyze_publications_by_time lib df) = df) \<and>
   (\<not> df_empty df \<and> map_of (columns df) ''publication_date'' = Some dates \<longrightarrow>
      map_of (columns (snd (analyze_publications_by_time lib df))) ''publication_date'' =
        Some (map (to_datetime lib) dates) \<and>
      map_of (columns (snd (analyze_publications_by_time lib df))) ''year'' =
        Some (years lib dates)) \<and>
   (\<not> df_empty df \<and> map_of (columns df) ''publication_date'' = Some dates \<and>
    map_of (columns df) ''citations'' = Some col \<and> numeric_cells col = Inr cites \<longrightarrow>
      map_of (columns (snd (analyze_publications_by_time lib df))) ''years_since_publication'' =
        Some (years_since lib (years lib dates)) \<and>
      map_of (columns (snd (analyze_publications_by_time lib df))) ''citation_velocity'' =
        Some (velocities cites (years_since lib (years lib dates)))) \<and>
   (fst (analyze_publications_by_time lib df) = Inl e \<and> k \<noteq> ''publication_date'' \<and>
    k \<noteq> ''year'' \<longrightarrow>
      map_of (columns (snd (analyze_publications_by_time lib df))) k = map_of (columns df) k)"
proof (intro conjI impI)
  show "index (snd (calculate_impact_metrics lib df)) = index df"
    by (rule impact_frame_index)
  show "map_of (columns (snd (calculate_impact_metrics lib df))) k = map_of (columns df) k"
    if "k \<noteq> ''citations''" using that by (rule impact_frame_other)
  show "map_of (columns (snd (calculate_impact_metrics lib df))) ''citations'' =
        Some (map Num (coerced_citations lib df))" if "\<not> df_empty df"
    using that by (rule impact_frame_citations)
  show "snd (calculate_impact_metrics lib df) = df" if "df_empty df"
    using that by (rule impact_frame_empty)
  show "index (snd (analyze_publications_by_time lib df)) = index df"
    by (rule time_frame_index)
  show "map_of (columns (snd (analyze_publications_by_time lib df))) k = map_of (columns df) k"
    if "k \<noteq> ''publication_date'' \<and> k \<noteq> ''year'' \<and> k \<noteq> ''years_since_publication'' \<and>
        k \<noteq> ''citation_velocity''"
    using that by (intro time_frame_other) simp_all
  show "snd (analyze_publications_by_time lib df) = df"
    if "df_empty df \<or> \<not> has_column ''publication_date'' df"
    using that by (rule time_frame_guard)
  show "map_of (columns (snd (analyze_publications_by_time lib df))) ''publication_date'' =
        Some (map (to_datetime lib) dates)"
    if "\<not> df_empty df \<and> map_of (columns df) ''publication_date'' = Some dates"
    using that by (intro time_frame_dates(1)) simp_all
  show "map_of (columns (snd (analyze_publications_by_time lib df))) ''year'' =
        Some (years lib dates)"
    if "\<not> df_empty df \<and> map_of (columns df) ''publication_date'' = Some dates"
    using that by (intro time_frame_dates(2)) simp_all
  show "map_of (columns (snd (analyze_publications_by_time lib df))) ''years_since_publication'' =
        Some (years_since lib (years lib dates))"
    if "\<not> df_empty df \<and> map_of (columns df) ''publication_date'' = Some dates \<and>
        map_of (columns df) ''citations'' = Some col \<and> numeric_cells col = Inr cites"
    using that by (intro time_frame_velocity(1)[of df dates col cites]) simp_all
  show "map_of (columns (snd (analyze_publications_by_time lib df))) ''citation_velocity'' =
        Some (velocities cites (years_since lib (years lib dates)))"
    if "\<not> df_empty df \<and> map_of (columns df) ''publication_date'' = Some dates \<and>
        map_of (columns df) ''citations'' = Some col \<and> numeric_cells col = Inr cites"
    using that by (intro time_frame_velocity(2)[of df dates col cites]) simp_all
  show "map_of (columns (snd (analyze_publications_by_time lib df))) k = map_of (columns df) k"
    if "fst (analyze_publications_by_time lib df) = Inl e \<and> k \<noteq> ''publication_date'' \<and>
        k \<noteq> ''year''"
    using that by (intro time_frame_raised[of lib df e]) simp_all
qed

theorem input_batch_frame_witness:
  "\<not> df_empty sample_batch \<and> df_empty empty_frame \<and>
   index (snd (calculate_impact_metrics sample_library sample_batch)) = [0, 1, 2] \<and>
   map_of (columns (snd (calculate_impact_metrics sample_library sample_batch))) ''title'' =
     Some [Str ''Graphs'', Str ''Trees'', Str ''Heaps''] \<and>
   map_of (columns (snd (calculate_impact_metrics sample_library sample_batch))) ''citations'' =
     Some [Num 12, Num 3, Num 0] \<and>
   snd (calculate_impact_metrics sample_library empty_frame) = empty_frame \<and>
   index (snd (analyze_publications_by_time sample_library sample_batch)) = [0, 1, 2] \<and>
   map_of (columns (snd (analyze_publications_by_time sample_library sample_batch))) ''title'' =
     Some [Str ''Graphs'', Str ''Trees'', Str ''Heaps''] \<and>
   snd (analyze_publications_by_time sample_library empty_frame) = empty_frame \<and>
   map_of (columns (snd (analyze_publications_by_time sample_library sample_batch)))
     ''publication_date'' = Some [Timestamp 2020 3 1, NaT, Timestamp 2020 3 1] \<and>
   map_of (columns (snd (analyze_publications_by_time sample_library sample_batch))) ''year'' =
     Some [Num 2020, NaN, Num 2020] \<and>
   map_of (columns (snd (analyze_publications_by_time sample_library sample_batch)))
     ''years_since_publication'' = Some [Num 6, NaN, Num 6] \<and>
   map_of (columns (snd (analyze_publications_by_time sample_library sample_batch)))
     ''citation_velocity'' = Some [Num 2, NaN, NaN] \<and>
   fst (analyze_publications_by_time sample_library
          \<lparr>index = [0], columns = [(''publication_date'', [Str ''2020-03-01''])]\<rparr>) =
     Inl (KeyError ''citations'') \<and>
   map_of (columns (snd (analyze_publications_by_time sample_library
          \<lparr>index = [0], columns = [(''publication_date'', [Str ''2020-03-01''])]\<rparr>)))
     ''citation_velocity'' = None"
proof -
  let ?dates = "[Str ''2020-03-01'', Str ''unknown'', Str ''2020-03-01'']"
  let ?col = "[Num 12, Num 3, NaN]"
  let ?cites = "[Some 12, Some 3, None]"
  let ?dated = "\<lparr>index = [0], columns = [(''publication_date'', [Str ''2020-03-01''])]\<rparr>"
  have ne: "\<not> df_empty sample_batch" by (simp add: df_empty_def sample_batch_def)
  have e: "df_empty empty_frame" by (simp add: df_empty_def empty_frame_def)
  have t: "map_of (columns sample_batch) ''title'' = Some [Str ''Graphs'', Str ''Trees'', Str ''Heaps'']"
    by (simp add: sample_batch_def)
  have i: "index sample_batch = [0, 1, 2]" by (simp add: sample_batch_def)
  have c: "map Num (coerced_citations sample_library sample_batch) = [Num 12, Num 3, Num 0]"
    by (simp add: coerced_citations_def sample_batch_def to_numeric_def)
  have k: "''title'' \<noteq> ''citations''" "''title'' \<noteq> ''publication_date''" "''title'' \<noteq> ''year''"
    "''title'' \<noteq> ''years_since_publication''" "''title'' \<noteq> ''citation_velocity''"
    by simp_all
  have d: "map_of (columns sample_batch) ''publication_date'' = Some ?dates"
    by (simp add: sample_batch_def)
  have cc: "map_of (columns sample_batch) ''citations'' = Some ?col"
    by (simp add: sample_batch_def)
  have nc: "numeric_cells ?col = Inr ?cites" by simp
  have pd: "map (to_datetime sample_library) ?dates = [Timestamp 2020 3 1, NaT, Timestamp 2020 3 1]"
    by code_simp
  have ys: "years sample_library ?dates = [Num 2020, NaN, Num 2020]" by code_simp
  have since: "years_since sample_library (years sample_library ?dates) = [Num 6, NaN, Num 6]"
    by code_simp
  have vel: "velocities ?cites (years_since sample_library (years sample_library ?dates)) =
               [Num 2, NaN, NaN]"
    by code_simp
  have raised: "fst (analyze_publications_by_time sample_library ?dated) = Inl (KeyError ''citations'')"
    by code_simp
  have kv: "''citation_velocity'' \<noteq> ''publication_date''" "''citation_velocity'' \<noteq> ''year''"
    by simp_all
  have absent: "map_of (columns ?dated) ''citation_velocity'' = None" by simp
  note full = input_batch_frame
    [of sample_library sample_batch "''title''" ?dates ?col ?cites "KeyError ''citations''"]
  note none = input_batch_frame
    [of sample_library empty_frame "''title''" ?dates ?col ?cites "KeyError ''citations''"]
  note fail = input_batch_frame
    [of sample_library ?dated "''citation_velocity''" ?dates ?col ?cites "KeyError ''citations''"]
  note full1 = full [THEN conjunct1]
  note full2 = full [THEN conjunct2, THEN conjunct1]
  note full3 = full [THEN conjunct2, THEN conjunct2, THEN conjunct1]
  note none4 = none [THEN conjunct2, THEN conjunct2, THEN conjunct2, THEN conjunct1]
  note rest = full [THEN conjunct2, THEN conjunct2, THEN conjunct2, THEN conjunct2]
  note none_rest = none [THEN conjunct2, THEN conjunct2, THEN conjunct2, THEN conjunct2]
  note fail_rest = fail [THEN conjunct2, THEN conjunct2, THEN conjunct2, THEN conjunct2]
  note full5 = rest [THEN conjunct1]
  note full6 = rest [THEN conjunct2, THEN conjunct1]
  note none7 = none_rest [THEN conjunct2, THEN conjunct2, THEN conjunct1]
  note full8 = rest [THEN conjunct2, THEN conjunct2, THEN conjunct2, THEN conjunct1]
  note full9 = rest [THEN conjunct2, THEN conjunct2, THEN conjunct2, THEN conjunct2, THEN conjunct1]
  note fail10 = fail_rest [THEN conjunct2, THEN conjunct2, THEN conjunct2, THEN conjunct2, THEN conjunct2]
  have 1: "index (snd (calculate_impact_metrics sample_library sample_batch)) = [0, 1, 2]"
    using full1 unfolding i .
  have 2: "map_of (columns (snd (calculate_impact_metrics sample_library sample_batch))) ''title'' =
     Some [Str ''Graphs'', Str ''Trees'', Str ''Heaps'']"
    using full2 [THEN mp, OF k(1)] unfolding t .
  have 3: "map_of (columns (snd (calculate_impact_metrics sample_library sample_batch))) ''citations'' =
     Some [Num 12, Num 3, Num 0]"
    using full3 [THEN mp, OF ne] unfolding c .
  have 4: "snd (calculate_impact_metrics sample_library empty_frame) = empty_frame"
    using none4 [THEN mp, OF e] .
  have 5: "index (snd (analyze_publications_by_time sample_library sample_batch)) = [0, 1, 2]"
    using full5 unfolding i .
  have k4: "''title'' \<noteq> ''publication_date'' \<and> ''title'' \<noteq> ''year'' \<and>
            ''title'' \<noteq> ''years_since_publication'' \<and> ''title'' \<noteq> ''citation_velocity''"
    by simp
  have 6: "map_of (columns (snd (analyze_publications_by_time sample_library sample_batch))) ''title'' =
     Some [Str ''Graphs'', Str ''Trees'', Str ''Heaps'']"
    using full6 [THEN mp, OF k4] unfolding t .
  have 7: "snd (analyze_publications_by_time sample_library empty_frame) = empty_frame"
    using none7 [THEN mp, OF disjI1, OF e] .
  have 8: "map_of (columns (snd (analyze_publications_by_time sample_library sample_batch)))
     ''publication_date'' = Some [Timestamp 2020 3 1, NaT, Timestamp 2020 3 1]"
    using full8 [THEN mp, OF conjI, OF ne d, THEN conjunct1] unfolding pd .
  have 9: "map_of (columns (snd (analyze_publications_by_time sample_library sample_batch))) ''year'' =
     Some [Num 2020, NaN, Num 2020]"
    using full8 [THEN mp, OF conjI, OF ne d, THEN conjunct2] unfolding ys .
  have pre: "\<not> df_empty sample_batch \<and> map_of (columns sample_batch) ''publication_date'' = Some ?dates \<and>
             map_of (columns sample_batch) ''citations'' = Some ?col \<and> numeric_cells ?col = Inr ?cites"
    using ne d cc nc by (intro conjI)
  have 10: "map_of (columns (snd (analyze_publications_by_time sample_library sample_batch)))
     ''years_since_publication'' = Some [Num 6, NaN, Num 6]"
    using full9 [THEN mp, OF pre, THEN conjunct1] unfolding since .
  have 11: "map_of (columns (snd (analyze_publications_by_time sample_library sample_batch)))
     ''citation_velocity'' = Some [Num 2, NaN, NaN]"
    using full9 [THEN mp, OF pre, THEN conjunct2] unfolding vel .
  have pre_fail: "fst (analyze_publications_by_time sample_library ?dated) = Inl (KeyError ''citations'') \<and>
                  ''citation_velocity'' \<noteq> ''publication_date'' \<and> ''citation_velocity'' \<noteq> ''year''"
    using raised kv by (intro conjI)
  have 12: "map_of (columns (snd (analyze_publications_by_time sample_library ?dated)))
     ''citation_velocity'' = None"
    using fail10 [THEN mp, OF pre_fail] unfolding absent .
  from ne e 1 2 3 4 5 6 7 8 9 10 11 raised 12 show ?thesis by (intro conjI)
qed

subsection \<open>When the temporal aggregation returns\<close>

text \<open>
  \<open>analyze_publications_by_time\<close> returns on every batch whose \<open>citations\<close> column is
  numeric, and raises KeyError at line 108 on a batch with dates and no \<open>citations\<close>
  column.
\<close>

lemma analyze_publications_by_time_returns:
  assumes "get_column df ''citations'' = Inr col" and "numeric_cells col = Inr cites"
  shows "\<exists>r. fst (analyze_publications_by_time lib df) = Inr r"
proof -
  have "map_of (columns df) ''citations'' = Some col"
    using assms(1) by (simp add: get_column_def split: option.splits)
  then have "\<And>d y. get_column (set_column (set_column df ''publication_date'' d) ''year'' y) ''citations'' = Inr col"
    by (simp add: get_column_def set_column_def map_of_assign)
  then show ?thesis
    using assms(2)
    by (auto simp: analyze_publications_by_time_def Let_def get_column_def has_column_def
        split: sum.splits option.splits)
qed

lemma analyze_publications_by_time_raises:
  assumes "\<not> df_empty df" and "has_column ''publication_date'' df"
    and "\<not> has_column ''citations'' df"
  shows "fst (analyze_publications_by_time lib df) = Inl (KeyError ''citations'')"
proof -
  obtain dates where d: "get_column df ''publication_date'' = Inr dates"
    using assms(2) by (auto simp: has_column_def get_column_def)
  have "map_of (columns df) ''citations'' = None" using assms(3) by (simp add: has_column_def)
  then have "\<And>d y. get_column (set_column (set_column df ''publication_date'' d) ''year'' y) ''citations'' = Inl (KeyError ''citations'')"
    by (simp add: get_column_def set_column_def map_of_assign)
  then show ?thesis
    using assms(1,2) d by (simp add: analyze_publications_by_time_def Let_def)
qed

section \<open>Properties of the author analysis\<close>

text \<open>
  \<open>strip\<close> removes a no-break space and a next-line character as it removes a blank, so
  a name followed by one is the same author as the bare name.
\<close>

lemma strip_latin1_blanks:
  "strip (''A. Lee'' @ [CHR 0xA0]) = ''A. Lee'' \<and> strip (CHR 0x85 # '' A. Lee '') = ''A. Lee''"
  by code_simp

lemma analyze_authors_no_break_space:
  "analyze_authors
     \<lparr>index = [0, 1],
      columns = [(''authors'', [Str (''A. Lee'' @ [CHR 0xA0]), Str ''A. Lee'']),
                 (''citations'', [Num 3, Num 1])]\<rparr> =
   Inr \<lparr>author_impact =
          [\<lparr>author = ''A. Lee'', paper_count = 2, citations = 4,
            author_avg_citations = Some 2, author_h_index = 1\<rparr>],
        author_collaborations = ([''A. Lee''], [[0]])\<rparr>"
  by code_simp

lemma square_replicate: "square n (replicate n (replicate n 0))"
  by (simp add: square_def list_all_iff)

lemma square_row: "square n m \<Longrightarrow> a < n \<Longrightarrow> length (m ! a) = n"
  by (auto simp: square_def list_all_iff)

lemma square_increment: "square n m \<Longrightarrow> square n (increment m i j)"
proof -
  assume s: "square n m"
  show ?thesis
  proof (cases "i < length m")
    case True
    then have "set (m[i := (m ! i)[j := m ! i ! j + 1]]) \<subseteq> insert ((m ! i)[j := m ! i ! j + 1]) (set m)"
      by (rule_tac set_update_subset_insert)
    moreover have "length ((m ! i)[j := m ! i ! j + 1]) = n"
      using s True by (simp add: square_row square_def)
    ultimately show ?thesis using s
      by (auto simp: square_def increment_def list_all_iff)
  next
    case False
    then show ?thesis using s by (simp add: increment_def list_update_beyond)
  qed
qed

lemma increment_entry:
  assumes "square n m" and "i < n" and "j < n" and "a < n" and "b < n"
  shows "increment m i j ! a ! b = m ! a ! b + (if a = i \<and> b = j then 1 else 0)"
proof -
  have l: "length m = n" using assms(1) by (simp add: square_def)
  have r: "length (m ! i) = n" using assms(1,2) by (rule square_row)
  show ?thesis
    using assms l r by (auto simp: increment_def nth_list_update)
qed

lemma pair_entry:
  assumes "square n m" and "i < n" and "j < n" and "a < n" and "b < n"
  shows "increment (increment m i j) j i ! a ! b =
         m ! a ! b + (if a = i \<and> b = j then 1 else 0) + (if a = j \<and> b = i then 1 else 0)"
proof -
  have "increment (increment m i j) j i ! a ! b =
        increment m i j ! a ! b + (if a = j \<and> b = i then 1 else 0)"
    using square_increment[OF assms(1)] assms(3,2,4,5) by (rule increment_entry)
  also have "increment m i j ! a ! b = m ! a ! b + (if a = i \<and> b = j then 1 else 0)"
    using assms by (rule increment_entry)
  finally show ?thesis .
qed

lemma symmetric_pair:
  assumes "square n m" and "symmetric n m" and "i < n" and "j < n"
  shows "symmetric n (increment (increment m i j) j i)"
  unfolding symmetric_def
proof (intro allI impI)
  fix a b assume a: "a < n" and b: "b < n"
  have eq: "m ! a ! b = m ! b ! a" using assms(2) a b unfolding symmetric_def by blast
  have 1: "increment (increment m i j) j i ! a ! b =
         m ! a ! b + (if a = i \<and> b = j then 1 else 0) + (if a = j \<and> b = i then 1 else 0)"
    using assms(1,3,4) a b by (rule pair_entry)
  have 2: "increment (increment m i j) j i ! b ! a =
         m ! b ! a + (if b = i \<and> a = j then 1 else 0) + (if b = j \<and> a = i then 1 else 0)"
    using assms(1,3,4) b a by (rule pair_entry)
  have 3: "(if a = i \<and> b = j then 1 else 0) + (if a = j \<and> b = i then 1 else (0::nat)) =
           (if b = i \<and> a = j then 1 else 0) + (if b = j \<and> a = i then 1 else 0)"
    by (cases "a = i"; cases "b = j"; cases "a = j"; cases "b = i"; simp)
  show "increment (increment m i j) j i ! a ! b = increment (increment m i j) j i ! b ! a"
    using 1 2 3 eq by linarith
qed

lemma zero_diagonal_pair:
  assumes "square n m" and "zero_diagonal n m" and "i < n" and "j < n" and "i \<noteq> j"
  shows "zero_diagonal n (increment (increment m i j) j i)"
  unfolding zero_diagonal_def
proof (intro allI impI)
  fix a assume a: "a < n"
  have z: "m ! a ! a = 0" using assms(2) a unfolding zero_diagonal_def by blast
  have 1: "increment (increment m i j) j i ! a ! a =
         m ! a ! a + (if a = i \<and> a = j then 1 else 0) + (if a = j \<and> a = i then 1 else 0)"
    using assms(1,3,4) a a by (rule pair_entry)
  have 2: "(if a = i \<and> a = j then 1 else (0::nat)) = 0" using assms(5) by (cases "a = i") simp_all
  have 3: "(if a = j \<and> a = i then 1 else (0::nat)) = 0" using assms(5) by (cases "a = i") simp_all
  show "increment (increment m i j) j i ! a ! a = 0"
    using 1 2 3 z by linarith
qed

lemma author_indices_Some:
  assumes "author_indices names a = Some i"
  shows "i < length names \<and> names ! i = a"
proof -
  from assms have "(a, i) \<in> set (zip names [0..<length names])"
    unfolding author_indices_def by (auto dest: map_of_SomeD)
  then obtain k where "k < length names" "names ! k = a" "[0..<length names] ! k = i"
    by (auto simp: in_set_zip)
  then show ?thesis by simp
qed

lemma pair_with_invariant:
  assumes "square n m" and "symmetric n m" and "idx1 < n"
    and bounded: "\<forall>a i. indices a = Some i \<longrightarrow> i < n"
  shows "square n (pair_with indices idx1 rest m) \<and> symmetric n (pair_with indices idx1 rest m)"
  using assms(1,2)
proof (induction rest arbitrary: m)
  case Nil
  then show ?case by simp
next
  case (Cons a2 rest)
  show ?case
  proof (cases "indices a2")
    case None
    then show ?thesis using Cons by simp
  next
    case (Some idx2)
    then have j: "idx2 < n" using bounded by blast
    have "square n (increment (increment m idx1 idx2) idx2 idx1)"
      using Cons.prems(1) by (intro square_increment)
    moreover have "symmetric n (increment (increment m idx1 idx2) idx2 idx1)"
      using Cons.prems assms(3) j by (rule symmetric_pair)
    ultimately show ?thesis using Cons.IH Some by simp
  qed
qed

lemma pair_authors_invariant:
  assumes "square n m" and "symmetric n m"
    and bounded: "\<forall>a i. indices a = Some i \<longrightarrow> i < n"
  shows "square n (pair_authors indices authors m) \<and> symmetric n (pair_authors indices authors m)"
  using assms(1,2)
proof (induction authors arbitrary: m)
  case Nil
  then show ?case by simp
next
  case (Cons a1 rest)
  show ?case
  proof (cases "indices a1")
    case None
    then show ?thesis using Cons by simp
  next
    case (Some idx1)
    then have i: "idx1 < n" using bounded by blast
    have "square n (pair_with indices idx1 rest m) \<and> symmetric n (pair_with indices idx1 rest m)"
      using Cons.prems(1) Cons.prems(2) i bounded by (rule pair_with_invariant)
    then show ?thesis using Cons.IH Some by simp
  qed
qed

lemma pair_with_diagonal:
  assumes "square n m" and "zero_diagonal n m" and "idx1 < n"
    and bounded: "\<forall>a i. indices a = Some i \<longrightarrow> i < n"
    and others: "\<forall>a \<in> set rest. indices a \<noteq> Some idx1"
  shows "square n (pair_with indices idx1 rest m) \<and> zero_diagonal n (pair_with indices idx1 rest m)"
  using assms(1,2) others
proof (induction rest arbitrary: m)
  case Nil
  then show ?case by simp
next
  case (Cons a2 rest)
  show ?case
  proof (cases "indices a2")
    case None
    then show ?thesis using Cons by simp
  next
    case (Some idx2)
    then have j: "idx2 < n" using bounded by blast
    have ne: "idx1 \<noteq> idx2" using Cons.prems(3) Some by auto
    have "square n (increment (increment m idx1 idx2) idx2 idx1)"
      using Cons.prems(1) by (intro square_increment)
    moreover have "zero_diagonal n (increment (increment m idx1 idx2) idx2 idx1)"
      using Cons.prems(1,2) assms(3) j ne by (rule zero_diagonal_pair)
    ultimately show ?thesis using Cons.IH Cons.prems(3) Some by simp
  qed
qed

lemma pair_authors_diagonal:
  assumes "square n m" and "zero_diagonal n m"
    and bounded: "\<forall>a i. indices a = Some i \<longrightarrow> i < n"
    and injective: "\<forall>a b i. indices a = Some i \<longrightarrow> indices b = Some i \<longrightarrow> a = b"
    and "distinct authors"
  shows "square n (pair_authors indices authors m) \<and> zero_diagonal n (pair_authors indices authors m)"
  using assms(1,2,5)
proof (induction authors arbitrary: m)
  case Nil
  then show ?case by simp
next
  case (Cons a1 rest)
  show ?case
  proof (cases "indices a1")
    case None
    then show ?thesis using Cons by simp
  next
    case (Some idx1)
    then have i: "idx1 < n" using bounded by blast
    have others: "\<forall>a \<in> set rest. indices a \<noteq> Some idx1"
      using Cons.prems(3) Some injective by auto
    have "square n (pair_with indices idx1 rest m) \<and> zero_diagonal n (pair_with indices idx1 rest m)"
      using Cons.prems(1) Cons.prems(2) i bounded others by (rule pair_with_diagonal)
    then show ?thesis using Cons.IH Cons.prems(3) Some by simp
  qed
qed

lemma author_indices_bounded:
  "\<forall>a i. author_indices names a = Some i \<longrightarrow> i < length names"
  using author_indices_Some by blast

lemma author_indices_injective:
  "\<forall>a b i. author_indices names a = Some i \<longrightarrow> author_indices names b = Some i \<longrightarrow> a = b"
  using author_indices_Some by blast

lemma collaborate_invariant:
  assumes "collaborate names cells m = Inr m'" and "square (length names) m"
    and "symmetric (length names) m"
  shows "square (length names) m' \<and> symmetric (length names) m'"
  using assms
proof (induction cells arbitrary: m)
  case Nil
  then show ?case by simp
next
  case (Cons c cells)
  show ?case
  proof (cases c)
    case (Str s)
    show ?thesis
    proof (cases "s = []")
      case True
      then show ?thesis using Cons Str by simp
    next
      case False
      let ?m = "pair_authors (author_indices names) (paper_authors names s) m"
      have "square (length names) ?m \<and> symmetric (length names) ?m"
        using Cons.prems(2) Cons.prems(3) author_indices_bounded by (rule pair_authors_invariant)
      moreover have "collaborate names cells ?m = Inr m'" using Cons.prems(1) Str False by simp
      ultimately show ?thesis using Cons.IH by blast
    qed
  qed (use Cons in simp_all)
qed

lemma collaborate_diagonal:
  assumes "collaborate names cells m = Inr m'" and "square (length names) m"
    and "zero_diagonal (length names) m"
    and "\<And>s. Str s \<in> set cells \<Longrightarrow> distinct (paper_authors names s)"
  shows "square (length names) m' \<and> zero_diagonal (length names) m'"
  using assms
proof (induction cells arbitrary: m)
  case Nil
  then show ?case by simp
next
  case (Cons c cells)
  show ?case
  proof (cases c)
    case (Str s)
    show ?thesis
    proof (cases "s = []")
      case True
      then show ?thesis using Cons Str by simp
    next
      case False
      let ?m = "pair_authors (author_indices names) (paper_authors names s) m"
      have d: "distinct (paper_authors names s)" using Cons.prems(4) Str by simp
      have "square (length names) ?m \<and> zero_diagonal (length names) ?m"
        using Cons.prems(2) Cons.prems(3) author_indices_bounded author_indices_injective d
        by (rule pair_authors_diagonal)
      moreover have "collaborate names cells ?m = Inr m'" using Cons.prems(1) Str False by simp
      ultimately show ?thesis using Cons.IH Cons.prems(4) by auto
    qed
  qed (use Cons in simp_all)
qed

lemma analyze_authors_collaborations:
  assumes "analyze_authors df = Inr r" and "author_collaborations r = (names, m)"
  shows "(names = [] \<and> m = []) \<or>
         collaborate names (authors_column df) (replicate (length names) (replicate (length names) 0)) = Inr m"
  using assms
  by (auto simp: analyze_authors_def Let_def get_column_def has_column_def authors_column_def
      split: if_splits sum.splits option.splits)

lemma symmetric_replicate: "symmetric n (replicate n (replicate n 0))"
  by (simp add: symmetric_def)

lemma zero_diagonal_replicate: "zero_diagonal n (replicate n (replicate n 0))"
  by (simp add: zero_diagonal_def)

text \<open>
  C3, as the spec states it: the diagonal of the collaboration matrix is zero also when
  a record lists the same author twice. A single record crediting \<open>A. Lee\<close> twice makes
  that author significant (two entries in \<open>author_papers\<close>) and pairs the two occurrences
  with each other: both increments of lines 206-207 land on the diagonal cell.
\<close>

theorem repeated_author_on_diagonal:
  "analyze_authors
     \<lparr>index = [0],
      columns = [(''authors'', [Str ''A. Lee, A. Lee'']), (''citations'', [Num 3])]\<rparr> =
   Inr \<lparr>author_impact =
          [\<lparr>author = ''A. Lee'', paper_count = 2, citations = 6,
            author_avg_citations = Some 3, author_h_index = 2\<rparr>],
        author_collaborations = ([''A. Lee''], [[2]])\<rparr> \<and>
   \<not> zero_diagonal 1 [[2]]"
proof -
  have "analyze_authors
     \<lparr>index = [0],
      columns = [(''authors'', [Str ''A. Lee, A. Lee'']), (''citations'', [Num 3])]\<rparr> =
   Inr \<lparr>author_impact =
          [\<lparr>author = ''A. Lee'', paper_count = 2, citations = 6,
            author_avg_citations = Some 3, author_h_index = 2\<rparr>],
        author_collaborations = ([''A. Lee''], [[2]])\<rparr>"
    by code_simp
  moreover have "\<not> zero_diagonal 1 [[2]]" by (simp add: zero_diagonal_def)
  ultimately show ?thesis by (rule conjI)
qed

text \<open>
  C3, amended: whenever \<open>analyze_authors\<close> returns, the collaboration matrix has one row
  and one column per significant author and is symmetric; its diagonal is all zero
  provided no record's author list names a significant author more than once.
\<close>

theorem collaboration_matrix:
  assumes "analyze_authors df = Inr r" and "author_collaborations r = (names, m)"
  shows "square (length names) m \<and> symmetric (length names) m \<and>
         ((\<forall>s. Str s \<in> set (authors_column df) \<longrightarrow> distinct (paper_authors names s)) \<longrightarrow>
          zero_diagonal (length names) m)"
proof -
  let ?n = "length names"
  let ?zero = "replicate ?n (replicate ?n (0::nat))"
  from analyze_authors_collaborations[OF assms]
  consider (none) "names = []" "m = []"
    | (some) "collaborate names (authors_column df) ?zero = Inr m"
    by blast
  then show ?thesis
  proof cases
    case none
    then show ?thesis by (simp add: square_def symmetric_def zero_diagonal_def)
  next
    case some
    have "square ?n m \<and> symmetric ?n m"
      using some square_replicate symmetric_replicate by (rule collaborate_invariant)
    moreover have "zero_diagonal ?n m"
      if "\<forall>s. Str s \<in> set (authors_column df) \<longrightarrow> distinct (paper_authors names s)"
    proof -
      from that have "\<And>s. Str s \<in> set (authors_column df) \<Longrightarrow> distinct (paper_authors names s)"
        by blast
      with some square_replicate zero_diagonal_replicate
      have "square ?n m \<and> zero_diagonal ?n m" by (rule collaborate_diagonal)
      then show ?thesis by blast
    qed
    ultimately show ?thesis by blast
  qed
qed

theorem collaboration_matrix_witness:
  "analyze_authors sample_batch =
     Inr \<lparr>author_impact =
            [\<lparr>author = ''A. Lee'', paper_count = 3, citations = 15,
              author_avg_citations = Some (15 / 2), author_h_index = 2\<rparr>,
             \<lparr>author = ''B. Roy'', paper_count = 2, citations = 12,
              author_avg_citations = Some 12, author_h_index = 1\<rparr>],
          author_collaborations = ([''A. Lee'', ''B. Roy''], [[0, 2], [2, 0]])\<rparr> \<and>
   distinct (paper_authors [''A. Lee'', ''B. Roy''] ''A. Lee, B. Roy'') \<and>
   distinct (paper_authors [''A. Lee'', ''B. Roy''] ''A. Lee'') \<and>
   distinct (paper_authors [''A. Lee'', ''B. Roy''] ''B. Roy, A. Lee'') \<and>
   square 2 [[0, 2], [2, 0]] \<and> symmetric 2 [[0, 2], [2, 0]] \<and> zero_diagonal 2 [[0, 2], [2, 0]]"
proof -
  let ?r = "\<lparr>author_impact =
            [\<lparr>author = ''A. Lee'', paper_count = 3, citations = 15,
              author_avg_citations = Some (15 / 2), author_h_index = 2\<rparr>,
             \<lparr>author = ''B. Roy'', paper_count = 2, citations = 12,
              author_avg_citations = Some 12, author_h_index = 1\<rparr>],
          author_collaborations = ([''A. Lee'', ''B. Roy''], [[0, 2], [2, 0]])\<rparr>"
  have run: "analyze_authors sample_batch = Inr ?r" by code_simp
  have res: "author_collaborations ?r = ([''A. Lee'', ''B. Roy''], [[0, 2], [2, 0]])" by simp
  have d1: "distinct (paper_authors [''A. Lee'', ''B. Roy''] ''A. Lee, B. Roy'')" by code_simp
  have d2: "distinct (paper_authors [''A. Lee'', ''B. Roy''] ''A. Lee'')" by code_simp
  have d3: "distinct (paper_authors [''A. Lee'', ''B. Roy''] ''B. Roy, A. Lee'')" by code_simp
  have all: "\<forall>s. Str s \<in> set (authors_column sample_batch) \<longrightarrow>
               distinct (paper_authors [''A. Lee'', ''B. Roy''] s)"
    using d1 d2 d3 by (auto simp: authors_column_def sample_batch_def)
  have n: "length [''A. Lee'', ''B. Roy''] = 2" by simp
  from collaboration_matrix [OF run res] all
  have "square 2 [[0, 2], [2, 0]] \<and> symmetric 2 [[0, 2], [2, 0]] \<and> zero_diagonal 2 [[0, 2], [2, 0]]"
    unfolding n by blast
  with run d1 d2 d3 show ?thesis by blast
qed

text \<open>
  C4: \<open>analyze_authors\<close> is meant never to raise, and to return empty tables when no
  author is credited on two records. On such a batch the list of metrics is empty, the
  frame built from it has no \<open>paper_count\<close> column, and line 186 raises KeyError.
\<close>

theorem no_significant_author_raises:
  "analyze_authors
     \<lparr>index = [0, 1],
      columns = [(''authors'', [Str ''A. Lee'', Str ''B. Roy'']), (''citations'', [Num 3, Num 1])]\<rparr> =
   Inl (KeyError ''paper_count'')"
  by code_simp

section \<open>Properties of the similarity ranking\<close>

lemma py_slice_length:
  assumes "0 \<le> n"
  shows "length (py_slice xs 1 (n + 1)) \<le> nat n"
proof -
  let ?lo = "py_bound (length xs) 1"
  let ?hi = "py_bound (length xs) (n + 1)"
  have len: "length (py_slice xs 1 (n + 1)) \<le> ?hi - ?lo"
    by (simp add: py_slice_def Let_def)
  have lo: "?lo = min 1 (length xs)" by (simp add: py_bound_def)
  have hi: "?hi = min (nat (n + 1)) (length xs)" using assms by (simp add: py_bound_def)
  have "nat (n + 1) = nat n + 1" using assms by simp
  then have "?hi - ?lo \<le> nat n" unfolding lo hi by (cases "length xs = 0") simp_all
  with len show ?thesis by simp
qed

lemma similar_indices_length: "0 \<le> n \<Longrightarrow> length (similar_indices row n) \<le> nat n"
  unfolding similar_indices_def by (rule py_slice_length)

lemma py_slice_from_1: "set (py_slice xs 1 stop) \<subseteq> set (tl xs)"
proof (cases xs)
  case Nil
  then show ?thesis by (simp add: py_slice_def py_bound_def Let_def)
next
  case (Cons x rest)
  then have "py_bound (length xs) 1 = 1" by (simp add: py_bound_def)
  then have "py_slice xs 1 stop = take (py_bound (length xs) stop - 1) rest"
    using Cons by (simp add: py_slice_def Let_def)
  then show ?thesis using Cons by (simp add: set_take_subset)
qed

lemma py_slice_whole_tail:
  assumes "int (length xs) \<le> n + 1"
  shows "py_slice xs 1 (n + 1) = tl xs"
proof (cases xs)
  case Nil
  then show ?thesis by (simp add: py_slice_def py_bound_def Let_def)
next
  case (Cons x rest)
  then have lo: "py_bound (length xs) 1 = 1" by (simp add: py_bound_def)
  have "0 \<le> n + 1" and "length xs \<le> nat (n + 1)" using assms by linarith+
  then have hi: "py_bound (length xs) (n + 1) = length xs"
    by (simp add: py_bound_def)
  show ?thesis using Cons unfolding py_slice_def Let_def lo hi by simp
qed

lemma tl_rev_butlast: "tl (rev xs) = rev (butlast xs)"
  by (induction xs rule: rev_induct) simp_all

lemma argsort_distinct: "distinct (argsort row)"
proof -
  let ?zs = "zip row [0..<length row]"
  have d: "distinct (map snd ?zs)" by (simp add: map_snd_zip_take)
  then have "distinct ?zs" and "inj_on snd (set ?zs)" by (simp_all only: distinct_map)
  then have "distinct (sort_key fst ?zs)" and "inj_on snd (set (sort_key fst ?zs))" by simp_all
  then show ?thesis unfolding argsort_def by (simp add: distinct_map)
qed

lemma argsort_last:
  assumes t: "t < length row" and top: "\<forall>j < length row. j \<noteq> t \<longrightarrow> row ! j < row ! t"
  shows "argsort row \<noteq> [] \<and> last (argsort row) = t"
proof -
  let ?ps = "sort_key fst (zip row [0..<length row])"
  have set_ps: "set ?ps = set (zip row [0..<length row])" by simp
  have "(row ! t, t) \<in> set (zip row [0..<length row])"
    using t by (auto simp: in_set_zip intro!: exI[of _ t])
  then have mem: "(row ! t, t) \<in> set ?ps" by simp
  then have ne: "?ps \<noteq> []" by (metis list.set(1) empty_iff)
  obtain v k where lk: "last ?ps = (v, k)" by (cases "last ?ps")
  have "last ?ps \<in> set ?ps" using ne by (rule last_in_set)
  then have "(v, k) \<in> set (zip row [0..<length row])" using lk by simp
  then have k: "k < length row" and v: "v = row ! k" by (auto simp: in_set_zip)
  have srt: "sorted (map fst ?ps)" by (rule sorted_sort_key)
  obtain i where i: "i < length ?ps" "?ps ! i = (row ! t, t)" using mem by (metis in_set_conv_nth)
  have "map fst ?ps ! i \<le> map fst ?ps ! (length ?ps - 1)"
    using srt i(1) by (intro sorted_nth_mono) auto
  then have "row ! t \<le> v"
    using i ne lk by (simp add: last_conv_nth)
  then have "k = t" using top k v by (metis not_less)
  then show ?thesis using ne lk by (simp add: argsort_def last_map)
qed

text \<open>
  The target is left out when its similarity to itself is strictly the largest of its
  row, and a result count that is not negative bounds the number of results.
\<close>

lemma strict_top_excluded:
  assumes "t < length row" and "\<forall>j < length row. j \<noteq> t \<longrightarrow> row ! j < row ! t"
  shows "t \<notin> set (similar_indices row n)"
proof -
  from argsort_last[OF assms] have ne: "argsort row \<noteq> []" and l: "last (argsort row) = t" by blast+
  have split: "argsort row = butlast (argsort row) @ [t]"
    using ne l by (metis append_butlast_last_id)
  have "distinct (butlast (argsort row) @ [t])"
    using argsort_distinct[of row] split by simp
  then have out: "t \<notin> set (butlast (argsort row))" by simp
  have "t \<notin> set (tl (rev (argsort row)))" using out by (simp add: tl_rev_butlast)
  then show ?thesis
    unfolding similar_indices_def
    using py_slice_from_1[of "rev (argsort row)" "n + 1"] by (meson subsetD)
qed

text \<open>
  The first position of the descending order is dropped whichever record it is. When
  two targets have the same similarity row (two records without a term, or two records
  with the same text), the same position is dropped for both, whatever order the sort
  gives to equal values: one of the two targets is among its own results.
\<close>

lemma one_of_two_kept:
  assumes "distinct p" and "a \<in> set p" and "b \<in> set p" and "a \<noteq> b"
    and "int (length p) \<le> n + 1"
  shows "a \<in> set (py_slice (rev p) 1 (n + 1)) \<or> b \<in> set (py_slice (rev p) 1 (n + 1))"
proof -
  have ne: "p \<noteq> []" using assms(2) by auto
  have "py_slice (rev p) 1 (n + 1) = tl (rev p)" using assms(5) by (intro py_slice_whole_tail) simp
  also have "\<dots> = rev (butlast p)" by (rule tl_rev_butlast)
  finally have eq: "set (py_slice (rev p) 1 (n + 1)) = set (butlast p)" by simp
  have "p = butlast p @ [last p]" using ne by simp
  then have "set p = insert (last p) (set (butlast p))"
    by (metis Un_insert_right list.simps(15) set_append sup_bot.right_neutral list.set(1))
  then show ?thesis using assms(2,3,4) eq by auto
qed

text \<open>
  C2: \<open>find_similar_papers\<close> is meant never to return the target among its results
  (line 390: "excluding the target paper itself"). Two records titled \<open>the\<close> and
  \<open>quantum computing\<close>, target 0: the target's document has no term, its similarity
  row is all 0, the descending order of the positions is 1, 0 and the slice keeps
  position 0, the target.
\<close>

theorem target_returned_on_tie:
  "find_similar_papers sample_library
     \<lparr>index = [0, 1], columns = [(''title'', [Str ''the'', Str ''quantum computing''])]\<rparr> 0 5 =
   Inr \<lparr>index = [0], columns = [(''title'', [Str ''the''])]\<rparr>"
  by code_simp

section \<open>The empty batch\<close>

text \<open>
  C8: on an empty batch (\<open>df.empty\<close>: no rows or no columns)
  \<open>calculate_impact_metrics\<close> returns zeros and an empty percentile list, and every
  other engine function returns its empty result as well; none raises, and the two
  functions that assign to their argument leave it as it is.
\<close>

theorem empty_batch_results:
  "df_empty df \<Longrightarrow>
   calculate_impact_metrics lib df =
     (\<lparr>total_publications = 0, total_citations = 0, avg_citations = 0, h_index = 0,
       i10_index = 0, g_index = 0, citation_percentiles = []\<rparr>, df) \<and>
   calculate_metrics df =
     Inr \<lparr>dp_total_publications = 0, dp_total_citations = 0, dp_avg_citations = 0,
          dp_h_index = 0\<rparr> \<and>
   analyze_publications_by_time lib df =
     (Inr \<lparr>publications_by_year = [], citations_by_year = [], citation_velocity = []\<rparr>, df) \<and>
   analyze_authors df = Inr \<lparr>author_impact = [], author_collaborations = ([], [])\<rparr> \<and>
   analyze_keywords lib df =
     Inr \<lparr>keyword_frequency = [], keyword_impact = [], keyword_trends = []\<rparr> \<and>
   find_similar_papers lib df target_paper_index n = Inr empty_frame"
  by (simp add: calculate_impact_metrics_def calculate_metrics_def analyze_publications_by_time_def
      analyze_authors_def analyze_keywords_def find_similar_papers_def)

theorem empty_batch_results_witness:
  "df_empty empty_frame \<and>
   calculate_impact_metrics sample_library empty_frame =
     (\<lparr>total_publications = 0, total_citations = 0, avg_citations = 0, h_index = 0,
       i10_index = 0, g_index = 0, citation_percentiles = []\<rparr>, empty_frame) \<and>
   calculate_metrics empty_frame =
     Inr \<lparr>dp_total_publications = 0, dp_total_citations = 0, dp_avg_citations = 0,
          dp_h_index = 0\<rparr> \<and>
   analyze_publications_by_time sample_library empty_frame =
     (Inr \<lparr>publications_by_year = [], citations_by_year = [], citation_velocity = []\<rparr>,
      empty_frame) \<and>
   analyze_authors empty_frame = Inr \<lparr>author_impact = [], author_collaborations = ([], [])\<rparr> \<and>
   analyze_keywords sample_library empty_frame =
     Inr \<lparr>keyword_frequency = [], keyword_impact = [], keyword_trends = []\<rparr> \<and>
   find_similar_papers sample_library empty_frame 0 5 = Inr empty_frame"
proof -
  have e: "df_empty empty_frame" by (simp add: df_empty_def empty_frame_def)
  from empty_batch_results [OF e, of sample_library 0 5] e show ?thesis by (rule_tac conjI)
qed

end
